theory Spec2Isabelle
  imports
    Main
    "HOL-Library.AList"
    "HOL-Library.Char_ord"
    "HOL-Library.List_Lexorder"
    "HOL-Library.Product_Lexorder"
begin

section \<open>The errorcodes generator of psycopg2 (scripts/make\_errorcodes.py)\<close>

text \<open>
  The script reads the existing \<^verbatim>\<open>errorcodes.py\<close> up to a sentinel line, downloads
  \<^verbatim>\<open>errcodes.txt\<close> for a list of PostgreSQL versions, parses each document, merges the
  results and writes the file back with a generated block after the sentinel.

  Conventions of the embedding.
  \<^item> A Python \<^verbatim>\<open>str\<close> and a line of \<^verbatim>\<open>bytes\<close> are both a \<^typ>\<open>string\<close>. The documents are
    decoded with \<^verbatim>\<open>decode("ascii")\<close> and the literals of the script are ASCII, so every
    \<^verbatim>\<open>str\<close> that reaches the registries is ASCII; \<open>upper\<close> is modelled on ASCII letters.
  \<^item> A \<^verbatim>\<open>dict\<close> is an association list in insertion order; assignment to an existing key
    keeps the key's position, assignment to a new key appends (\<^const>\<open>AList.update\<close>).
  \<^item> An exception is a value of \<open>error\<close>; a function that may raise returns
    \<open>error + 'a\<close>.
  \<^item> The network is a parameter \<open>urlopen\<close> mapping a URL to the byte lines of the page, or
    to the exception the transport raises. The progress messages printed on standard error
    are left out.
  \<^item> The file system is a map from file names to files. A file is read in text mode: it
    either decodes in the locale encoding to a text, whose lines end at a line feed, a
    carriage return or both, or its decoding fails after some lines have been iterated. A
    file is written as the text printed, a line feed being stored as it is.
\<close>

subsection \<open>Exceptions\<close>

datatype error =
    ValueError string        \<comment> \<open>\<^verbatim>\<open>raise ValueError(msg)\<close>, and the failure of \<^verbatim>\<open>int()\<close>\<close>
  | UnicodeDecodeError       \<comment> \<open>\<^verbatim>\<open>bytes.decode("ascii")\<close> on a byte above 127\<close>
  | UnboundLocalError        \<comment> \<open>a local variable read before its first assignment\<close>
  | IndexError               \<comment> \<open>list index out of range\<close>
  | URLError                 \<comment> \<open>any failure of \<^verbatim>\<open>urlopen\<close>\<close>
  | OSError                  \<comment> \<open>\<^verbatim>\<open>open\<close> of a file that cannot be read\<close>

subsection \<open>Strings\<close>

definition newline :: char where
  "newline = CHR 0x0A"

definition isspace :: "char \<Rightarrow> bool" where
  \<comment> \<open>\<^verbatim>\<open>str.isspace\<close>, which is also the regular expression class \<^verbatim>\<open>\s\<close> on \<^verbatim>\<open>str\<close> patterns\<close>
  "isspace c =
     (c \<in> set [CHR 0x09, CHR 0x0A, CHR 0x0B, CHR 0x0C, CHR 0x0D, CHR 0x1C, CHR 0x1D,
                CHR 0x1E, CHR 0x1F, CHR 0x20, CHR 0x85, CHR 0xA0])"

definition strip :: "string \<Rightarrow> string" where
  \<comment> \<open>\<^verbatim>\<open>s.strip()\<close>\<close>
  "strip s = rev (dropWhile isspace (rev (dropWhile isspace s)))"

definition upper_char :: "char \<Rightarrow> char" where
  "upper_char c =
     (case map_of (zip ''abcdefghijklmnopqrstuvwxyz'' ''ABCDEFGHIJKLMNOPQRSTUVWXYZ'') c of
        Some u \<Rightarrow> u
      | None \<Rightarrow> c)"

definition upper :: "string \<Rightarrow> string" where
  \<comment> \<open>\<^verbatim>\<open>s.upper()\<close> on ASCII text\<close>
  "upper s = map upper_char s"

definition replace_char :: "char \<Rightarrow> char \<Rightarrow> string \<Rightarrow> string" where
  \<comment> \<open>\<^verbatim>\<open>s.replace(old, new)\<close> for one-character \<^verbatim>\<open>old\<close> and \<^verbatim>\<open>new\<close>\<close>
  "replace_char old new s = map (\<lambda>c. if c = old then new else c) s"

definition replace_dots :: "string \<Rightarrow> string" where
  "replace_dots s = replace_char (CHR ''.'') (CHR ''_'') s"

definition startswith :: "string \<Rightarrow> string \<Rightarrow> bool" where
  \<comment> \<open>\<^verbatim>\<open>s.startswith(p)\<close>\<close>
  "startswith p s = (take (length p) s = p)"

function split_str :: "string \<Rightarrow> string \<Rightarrow> string list" where
  \<comment> \<open>\<^verbatim>\<open>s.split(sep)\<close> for a non-empty separator: the pieces between the occurrences of
      \<^verbatim>\<open>sep\<close>, found from left to right without overlap\<close>
  "split_str sep [] = [[]]"
| "split_str sep (c # cs) =
     (if sep \<noteq> [] \<and> startswith sep (c # cs)
      then [] # split_str sep (drop (length sep - 1) cs)
      else (case split_str sep cs of
              [] \<Rightarrow> [[c]]
            | piece # pieces \<Rightarrow> (c # piece) # pieces))"
  by pat_completeness auto
termination
  by (relation "measure (\<lambda>(sep, s). length s)") auto

definition split_ws_first :: "string \<Rightarrow> error + string" where
  \<comment> \<open>\<^verbatim>\<open>s.split()[0]\<close>: the first run of characters that are not white space\<close>
  "split_ws_first s =
     (case dropWhile isspace s of
        [] \<Rightarrow> Inl IndexError
      | c # cs \<Rightarrow> Inr (takeWhile (\<lambda>x. \<not> isspace x) (c # cs)))"

definition hex_digit :: "nat \<Rightarrow> char" where
  "hex_digit n = (if n < 10 then char_of (48 + n) else char_of (87 + n))"

definition repr_char :: "char \<Rightarrow> char \<Rightarrow> string" where
  \<comment> \<open>one character of \<^verbatim>\<open>repr(s)\<close>, inside the quote character \<open>q\<close>\<close>
  "repr_char q c = (let n = (of_char c :: nat) in
     if c = q \<or> c = CHR 0x5C then [CHR 0x5C, c]
     else if n = 9 then [CHR 0x5C, CHR ''t'']
     else if n = 10 then [CHR 0x5C, CHR ''n'']
     else if n = 13 then [CHR 0x5C, CHR ''r'']
     else if n < 32 \<or> n = 127 \<or> (128 \<le> n \<and> n \<le> 160) \<or> n = 173
       then [CHR 0x5C, CHR ''x'', hex_digit (n div 16), hex_digit (n mod 16)]
     else [c])"

definition py_repr :: "string \<Rightarrow> string" where
  \<comment> \<open>\<^verbatim>\<open>repr(s)\<close> (the \<^verbatim>\<open>%r\<close> conversion): single quotes, unless the string holds a single
      quote and no double quote\<close>
  "py_repr s =
     (let q = (if CHR 0x27 \<in> set s \<and> CHR 0x22 \<notin> set s then CHR 0x22 else CHR 0x27)
      in [q] @ concat (map (repr_char q) s) @ [q])"

subsection \<open>Integer literals\<close>

definition isdigit :: "char \<Rightarrow> bool" where
  "isdigit c = (c \<in> set ''0123456789'')"

fun digit_groups :: "string \<Rightarrow> bool" where
  \<comment> \<open>digits, with single underscores allowed between two digits\<close>
  "digit_groups [] = False"
| "digit_groups [c] = isdigit c"
| "digit_groups (c # d # cs) =
     (if isdigit c then
        (if d = CHR ''_'' then digit_groups cs else digit_groups (d # cs))
      else False)"

definition digits_value :: "string \<Rightarrow> int" where
  "digits_value s =
     foldl (\<lambda>acc c. 10 * acc + int (of_char c - 48)) 0 (filter isdigit s)"

definition py_int :: "string \<Rightarrow> error + int" where
  \<comment> \<open>\<^verbatim>\<open>int(s)\<close> on a string without white space: an optional sign, then the digits
      (the interpreter's limit on the length of a literal is left out)\<close>
  "py_int s =
     (let body = (case s of [] \<Rightarrow> []
                  | c # cs \<Rightarrow> if c = CHR ''+'' \<or> c = CHR ''-'' then cs else c # cs);
          neg = (case s of [] \<Rightarrow> False | c # cs \<Rightarrow> c = CHR ''-'')
      in if digit_groups body
         then Inr (if neg then - digits_value body else digits_value body)
         else Inl (ValueError (''invalid literal for int() with base 10: '' @ py_repr s)))"

fun map_int :: "string list \<Rightarrow> error + int list" where
  \<comment> \<open>\<^verbatim>\<open>tuple(map(int, xs))\<close>\<close>
  "map_int [] = Inr []"
| "map_int (x # xs) =
     (case py_int x of
        Inl e \<Rightarrow> Inl e
      | Inr n \<Rightarrow> (case map_int xs of Inl e \<Rightarrow> Inl e | Inr ns \<Rightarrow> Inr (n # ns)))"

subsection \<open>Dictionaries\<close>

type_synonym dict = "(string \<times> string) list"
type_synonym defaultdict = "(string \<times> dict) list"

definition dict_update :: "dict \<Rightarrow> dict \<Rightarrow> dict" where
  \<comment> \<open>\<^verbatim>\<open>d.update(other)\<close>\<close>
  "dict_update d other = foldl (\<lambda>acc (k, v). AList.update k v acc) d other"

definition dd_get :: "defaultdict \<Rightarrow> string \<Rightarrow> dict" where
  \<comment> \<open>the value of \<^verbatim>\<open>errors[c]\<close> on a \<^verbatim>\<open>defaultdict(dict)\<close>: an empty dict for a missing key\<close>
  "dd_get errors c = (case map_of errors c of None \<Rightarrow> [] | Some d \<Rightarrow> d)"

definition dd_setitem :: "defaultdict \<Rightarrow> string \<Rightarrow> string \<Rightarrow> string \<Rightarrow> defaultdict" where
  \<comment> \<open>\<^verbatim>\<open>errors[c][k] = v\<close>\<close>
  "dd_setitem errors c k v = AList.update c (AList.update k v (dd_get errors c)) errors"

definition dd_update :: "defaultdict \<Rightarrow> string \<Rightarrow> dict \<Rightarrow> defaultdict" where
  \<comment> \<open>\<^verbatim>\<open>errors[c].update(cerrs)\<close>\<close>
  "dd_update errors c cerrs = AList.update c (dict_update (dd_get errors c) cerrs) errors"

definition lookup2 :: "defaultdict \<Rightarrow> string \<Rightarrow> string \<Rightarrow> string option" where
  \<comment> \<open>the entry of the error registry for a class code and an error code, if any\<close>
  "lookup2 errors c k = map_of (dd_get errors c) k"

subsection \<open>parse\_errors\_txt\<close>

definition decode_ascii :: "string \<Rightarrow> error + string" where
  \<comment> \<open>\<^verbatim>\<open>line.decode("ascii")\<close>: every byte below 128, that is, with its top bit clear\<close>
  "decode_ascii bs =
     (if list_all (\<lambda>c. \<not> digit7 c) bs then Inr bs else Inl UnicodeDecodeError)"

definition dot :: "char \<Rightarrow> bool" where
  \<comment> \<open>the regular expression \<^verbatim>\<open>.\<close>: any character but a newline\<close>
  "dot c = (c \<noteq> newline)"

definition at_end :: "string \<Rightarrow> bool" where
  \<comment> \<open>the regular expression \<^verbatim>\<open>$\<close>: at the end, or before a newline that ends the string\<close>
  "at_end s = (s = [] \<or> s = [newline])"

definition spaces1 :: "string \<Rightarrow> string option" where
  \<comment> \<open>\<^verbatim>\<open>\s+\<close>: consumes a non-empty run of white space, returns the rest\<close>
  "spaces1 s =
     (case s of [] \<Rightarrow> None
      | c # cs \<Rightarrow> if isspace c then Some (dropWhile isspace cs) else None)"

definition nonspaces1 :: "string \<Rightarrow> (string \<times> string) option" where
  \<comment> \<open>\<^verbatim>\<open>(\S+)\<close>: consumes a non-empty run of other characters, returns it and the rest\<close>
  "nonspaces1 s =
     (case s of [] \<Rightarrow> None
      | c # cs \<Rightarrow> if isspace c then None
                else Some (takeWhile (\<lambda>x. \<not> isspace x) (c # cs),
                           dropWhile (\<lambda>x. \<not> isspace x) (c # cs)))"

definition match_section :: "string \<Rightarrow> (string \<times> string) option" where
  \<comment> \<open>\<^verbatim>\<open>re.match(r"Section: (Class (..) - .+)", line)\<close> and \<^verbatim>\<open>m.groups()\<close>\<close>
  "match_section line =
     (if startswith ''Section: Class '' line then
        (let r1 = drop 15 line; cls = take 2 r1; r2 = drop 2 r1
         in if length cls = 2 \<and> list_all dot cls \<and> startswith '' - '' r2 then
              (let text = takeWhile dot (drop 3 r2)
               in if text = [] then None
                  else Some (''Class '' @ cls @ '' - '' @ text, cls))
            else None)
      else None)"

definition match_tail :: "string \<Rightarrow> string option option" where
  \<comment> \<open>\<^verbatim>\<open>(?:\s+(\S+))?$\<close>: the optional group is tried first, then skipped\<close>
  "match_tail r =
     (let with_spec =
            (case spaces1 r of None \<Rightarrow> None
             | Some r1 \<Rightarrow> (case nonspaces1 r1 of None \<Rightarrow> None
                 | Some (spec, r2) \<Rightarrow> if at_end r2 then Some spec else None))
      in case with_spec of
           Some spec \<Rightarrow> Some (Some spec)
         | None \<Rightarrow> if at_end r then Some None else None)"

definition match_error :: "string \<Rightarrow> (string \<times> string \<times> string option) option" where
  \<comment> \<open>\<^verbatim>\<open>re.match(r"(.....)\s+(?:E|W|S)\s+ERRCODE_(\S+)(?:\s+(\S+))?$", line)\<close> and
      \<^verbatim>\<open>m.groups()\<close>\<close>
  "match_error line =
     (let errcode = take 5 line
      in if length errcode = 5 \<and> list_all dot errcode then
           (case spaces1 (drop 5 line) of None \<Rightarrow> None
            | Some r1 \<Rightarrow>
               (case r1 of [] \<Rightarrow> None
                | sev # r2 \<Rightarrow>
                   if sev = CHR ''E'' \<or> sev = CHR ''W'' \<or> sev = CHR ''S'' then
                     (case spaces1 r2 of None \<Rightarrow> None
                      | Some r3 \<Rightarrow>
                         if startswith ''ERRCODE_'' r3 then
                           (case nonspaces1 (drop 8 r3) of None \<Rightarrow> None
                            | Some (macro, r4) \<Rightarrow>
                               (case match_tail r4 of None \<Rightarrow> None
                                | Some spec \<Rightarrow> Some (errcode, macro, spec)))
                         else None)
                   else None))
         else None)"

text \<open>
  In both patterns every repetition is forced to its longest match: \<^verbatim>\<open>\s+\<close> is followed by
  a character that is not white space (a severity letter, \<^verbatim>\<open>E\<close> of \<^verbatim>\<open>ERRCODE_\<close>, or
  \<^verbatim>\<open>\S\<close>), and \<^verbatim>\<open>\S+\<close> is followed by white space or by the end of the line. So the
  backtracking matcher of \<^verbatim>\<open>re\<close> finds a match exactly when the longest-match scan above
  does, with the same groups.
\<close>

type_synonym parse_state = "dict \<times> defaultdict \<times> string option"
  \<comment> \<open>\<^verbatim>\<open>classes\<close>, \<^verbatim>\<open>errors\<close> and the local variable \<^verbatim>\<open>class_\<close> (\<open>None\<close> while unbound)\<close>

definition clean_line :: "string \<Rightarrow> string" where
  \<comment> \<open>\<^verbatim>\<open>line.split('#')[0].strip()\<close>\<close>
  "clean_line s = strip (takeWhile (\<lambda>c. c \<noteq> CHR ''#'') s)"

definition parse_line :: "string \<Rightarrow> parse_state \<Rightarrow> error + parse_state" where
  \<comment> \<open>the body of the loop over the lines of the page\<close>
  "parse_line raw st =
     (case st of (classes, errors, class_) \<Rightarrow>
      (case decode_ascii raw of
         Inl e \<Rightarrow> Inl e
       | Inr s \<Rightarrow>
          (let line = clean_line s
           in if line = [] then Inr st
              else
                (case match_section line of
                   Some (label, cls) \<Rightarrow> Inr (AList.update cls label classes, errors, Some cls)
                 | None \<Rightarrow>
                    (case match_error line of
                       Some (errcode, macro, spec) \<Rightarrow>
                         (case spec of
                            None \<Rightarrow> Inr st
                          | Some sp \<Rightarrow>
                             (case class_ of
                                None \<Rightarrow> Inl UnboundLocalError
                              | Some c \<Rightarrow>
                                  Inr (classes, dd_setitem errors c errcode (upper sp), class_)))
                     | None \<Rightarrow> Inl (ValueError (''unexpected line:\<newline>'' @ line)))))))"

fun parse_loop :: "string list \<Rightarrow> parse_state \<Rightarrow> error + parse_state" where
  "parse_loop [] st = Inr st"
| "parse_loop (raw # page) st =
     (case parse_line raw st of Inl e \<Rightarrow> Inl e | Inr st' \<Rightarrow> parse_loop page st')"

definition parse_errors_txt ::
  "(string \<Rightarrow> error + string list) \<Rightarrow> string \<Rightarrow> error + (dict \<times> defaultdict)" where
  "parse_errors_txt urlopen url =
     (case urlopen url of
        Inl e \<Rightarrow> Inl e
      | Inr page \<Rightarrow>
         (case parse_loop page ([], [], None) of
            Inl e \<Rightarrow> Inl e
          | Inr (classes, errors, class_) \<Rightarrow> Inr (classes, errors)))"

subsection \<open>fetch\_errors\<close>

definition errors_txt_url :: "string \<Rightarrow> string" where
  \<comment> \<open>\<^verbatim>\<open>errors_txt_url % tag\<close>\<close>
  "errors_txt_url tag =
     ''http://git.postgresql.org/gitweb/?p=postgresql.git;a=blob_plain;'' @
     ''f=src/backend/utils/errcodes.txt;hb='' @ tag"

definition version_tag :: "string \<Rightarrow> error + string" where
  \<comment> \<open>\<^verbatim>\<open>tver\<close> and \<^verbatim>\<open>tag\<close> of one version\<close>
  "version_tag version =
     (case split_ws_first version of
        Inl e \<Rightarrow> Inl e
      | Inr tok \<Rightarrow>
         (case map_int (split_str ''.'' tok) of
            Inl e \<Rightarrow> Inl e
          | Inr tver \<Rightarrow>
             (case tver of
                [] \<Rightarrow> Inl IndexError
              | t0 # ts \<Rightarrow>
                 Inr ((if t0 \<ge> 10 then ''REL_'' else ''REL'') @
                      replace_dots version @ ''_STABLE''))))"

definition merge_errors :: "defaultdict \<Rightarrow> defaultdict \<Rightarrow> defaultdict" where
  \<comment> \<open>\<^verbatim>\<open>for c, cerrs in e1.items(): errors[c].update(cerrs)\<close>\<close>
  "merge_errors errors e1 = foldl (\<lambda>acc (c, cerrs). dd_update acc c cerrs) errors e1"

definition merge_version ::
  "dict \<times> defaultdict \<Rightarrow> dict \<times> defaultdict \<Rightarrow> dict \<times> defaultdict" where
  \<comment> \<open>the body of the loop over the versions, after the page has been parsed\<close>
  "merge_version st r =
     (case st of (classes, errors) \<Rightarrow>
      (case r of (c1, e1) \<Rightarrow>
        (dict_update classes c1,
         merge_errors (dd_setitem errors ''22'' ''22020'' ''INVALID_LIMIT_VALUE'') e1)))"

definition parse_version ::
  "(string \<Rightarrow> error + string list) \<Rightarrow> string \<Rightarrow> error + (dict \<times> defaultdict)" where
  \<comment> \<open>\<^verbatim>\<open>c1, e1\<close> of one version: the tag, the URL, the parse of the page\<close>
  "parse_version urlopen version =
     (case version_tag version of
        Inl e \<Rightarrow> Inl e
      | Inr tag \<Rightarrow> parse_errors_txt urlopen (errors_txt_url tag))"

fun fetch_loop ::
  "(string \<Rightarrow> error + string list) \<Rightarrow> string list \<Rightarrow> dict \<times> defaultdict \<Rightarrow>
     error + (dict \<times> defaultdict)" where
  "fetch_loop urlopen [] st = Inr st"
| "fetch_loop urlopen (version # versions) st =
     (case parse_version urlopen version of
        Inl e \<Rightarrow> Inl e
      | Inr r \<Rightarrow> fetch_loop urlopen versions (merge_version st r))"

definition fetch_errors ::
  "(string \<Rightarrow> error + string list) \<Rightarrow> string list \<Rightarrow> error + (dict \<times> defaultdict)" where
  "fetch_errors urlopen versions = fetch_loop urlopen versions ([], [])"

subsection \<open>generate\_module\_data\<close>

definition class_err :: "string \<Rightarrow> error + string" where
  \<comment> \<open>\<^verbatim>\<open>clslabel.split(" - ")[1].split("(")[0].strip().replace(" ", "_").replace('/', "_").upper()\<close>\<close>
  "class_err clslabel =
     (case split_str '' - '' clslabel of
        p0 # p1 # ps \<Rightarrow>
          (case split_str ''('' p1 of
             [] \<Rightarrow> Inl IndexError
           | q0 # qs \<Rightarrow>
               Inr (upper (replace_char (CHR ''/'') (CHR ''_'')
                      (replace_char (CHR '' '') (CHR ''_'') (strip q0)))))
      | _ \<Rightarrow> Inl IndexError)"

definition class_line :: "string \<Rightarrow> string \<Rightarrow> error + string" where
  \<comment> \<open>\<^verbatim>\<open>"CLASS_%s = %r" % (err, clscode)\<close>\<close>
  "class_line clscode clslabel =
     (case class_err clslabel of
        Inl e \<Rightarrow> Inl e
      | Inr err \<Rightarrow> Inr (''CLASS_'' @ err @ '' = '' @ py_repr clscode))"

fun class_lines :: "dict \<Rightarrow> string list \<times> error option" where
  \<comment> \<open>the first loop: the lines yielded, and the exception that ended it, if any\<close>
  "class_lines [] = ([], None)"
| "class_lines ((clscode, clslabel) # items) =
     (case class_line clscode clslabel of
        Inl e \<Rightarrow> ([], Some e)
      | Inr l \<Rightarrow> (case class_lines items of (ls, r) \<Rightarrow> (l # ls, r)))"

definition error_line :: "string \<times> string \<Rightarrow> string" where
  \<comment> \<open>\<^verbatim>\<open>"%s = %r" % (errlabel, errcode)\<close>\<close>
  "error_line item = (case item of (errcode, errlabel) \<Rightarrow> errlabel @ '' = '' @ py_repr errcode)"

definition section_lines :: "defaultdict \<Rightarrow> string \<times> string \<Rightarrow> string list" where
  \<comment> \<open>the body of the second loop\<close>
  "section_lines errors item =
     (case item of (clscode, clslabel) \<Rightarrow>
        [[]] @ [''# '' @ clslabel] @ map error_line (sort (dd_get errors clscode)))"

definition generate_module_data :: "dict \<Rightarrow> defaultdict \<Rightarrow> string list \<times> error option" where
  \<comment> \<open>the lines the generator yields, and the exception that ended it, if any\<close>
  "generate_module_data classes errors =
     (case class_lines (sort classes) of
        (ls, Some e) \<Rightarrow> ([[]] @ [''# Error classes''] @ ls, Some e)
      | (ls, None) \<Rightarrow>
          ([[]] @ [''# Error classes''] @ ls @
             concat (map (section_lines errors) (sort classes)), None))"

subsection \<open>read\_base\_file and main\<close>

datatype text_file =
    Decodes string
      \<comment> \<open>a file whose bytes decode to this text\<close>
  | Undecodable "string list"
      \<comment> \<open>a file whose decoding fails: the lines iterated before \<^verbatim>\<open>UnicodeDecodeError\<close>\<close>

definition carriage_return :: char where
  "carriage_return = CHR 0x0D"

fun readlines :: "string \<Rightarrow> string list" where
  \<comment> \<open>the lines a text file iterates over, with universal newlines: a line ends at a line
      feed, at a carriage return, or at a carriage return followed by a line feed, and holds
      a line feed in its place; a last line without a line end is kept as it is\<close>
  "readlines [] = []"
| "readlines [c] = (if c = carriage_return \<or> c = newline then [[newline]] else [[c]])"
| "readlines (c # d # ds) =
     (if c = carriage_return \<and> d = newline then [newline] # readlines ds
      else if c = carriage_return \<or> c = newline then [newline] # readlines (d # ds)
      else (case readlines (d # ds) of [] \<Rightarrow> [[c]] | l # ls \<Rightarrow> (c # l) # ls))"

definition rstrip_newline :: "string \<Rightarrow> string" where
  \<comment> \<open>\<^verbatim>\<open>line.rstrip("\n")\<close>\<close>
  "rstrip_newline s = rev (dropWhile (\<lambda>c. c = newline) (rev s))"

definition sentinel :: string where
  "sentinel = ''# autogenerated''"

definition separator_missing :: error where
  "separator_missing = ValueError ''can't find the separator. Is this the right file?''"

definition file_lines :: "text_file \<Rightarrow> string list" where
  \<comment> \<open>the lines that \<^verbatim>\<open>for line in open(filename)\<close> goes through\<close>
  "file_lines f = (case f of Decodes t \<Rightarrow> readlines t | Undecodable ls \<Rightarrow> ls)"

definition file_end :: "text_file \<Rightarrow> error" where
  \<comment> \<open>the exception when no line has returned: the \<^verbatim>\<open>raise\<close> after the loop, or the
      decoding error that ends the iteration\<close>
  "file_end f =
     (case f of Decodes t \<Rightarrow> separator_missing | Undecodable ls \<Rightarrow> UnicodeDecodeError)"

fun read_loop :: "string list \<Rightarrow> error \<Rightarrow> string list \<Rightarrow> error + string list" where
  \<comment> \<open>the loop over the lines, with the exception that follows the last line\<close>
  "read_loop [] e rv = Inl e"
| "read_loop (line # rest) e rv =
     (if startswith sentinel line then Inr (rv @ [rstrip_newline line])
      else read_loop rest e (rv @ [rstrip_newline line]))"

type_synonym files = "string \<Rightarrow> text_file option"

definition read_base_file :: "files \<Rightarrow> string \<Rightarrow> error + string list" where
  "read_base_file fs filename =
     (case fs filename of
        None \<Rightarrow> Inl OSError
      | Some f \<Rightarrow> read_loop (file_lines f) (file_end f) [])"

definition print_lines :: "string list \<Rightarrow> string" where
  \<comment> \<open>the text written by \<^verbatim>\<open>print(line, file=f)\<close> for each line\<close>
  "print_lines ls = concat (map (\<lambda>l. l @ [newline]) ls)"

definition versions_main :: "string list" where
  "versions_main = [''9.1'', ''9.2'', ''9.3'', ''9.4'', ''9.5'', ''9.6'', ''10'', ''11'', ''12'']"

definition main ::
  "string list \<Rightarrow> files \<Rightarrow> (string \<Rightarrow> error + string list) \<Rightarrow> (error + int option) \<times> files" where
  \<comment> \<open>\<^verbatim>\<open>main()\<close> with \<^verbatim>\<open>sys.argv\<close>, the file system and the network as arguments; returns
      the exception raised or the value returned, and the file system afterwards\<close>
  "main argv fs urlopen =
     (if length argv \<noteq> 2 then (Inr (Some 2), fs)
      else
        (let filename = argv ! 1
         in case read_base_file fs filename of
              Inl e \<Rightarrow> (Inl e, fs)
            | Inr file_start \<Rightarrow>
               (case fetch_errors urlopen versions_main of
                  Inl e \<Rightarrow> (Inl e, fs)
                | Inr (classes, errors) \<Rightarrow>
                   (case generate_module_data classes errors of
                      (ls, r) \<Rightarrow>
                        ((case r of None \<Rightarrow> Inr None | Some e \<Rightarrow> Inl e),
                         fs(filename \<mapsto> Decodes (print_lines (file_start @ ls))))))))"

subsection \<open>Well-formed registries and notions of the specification\<close>

definition wf_dict :: "dict \<Rightarrow> bool" where
  \<comment> \<open>a \<^verbatim>\<open>dict\<close> has every key once\<close>
  "wf_dict d = distinct (map fst d)"

definition wf_dd :: "defaultdict \<Rightarrow> bool" where
  "wf_dd errors = (distinct (map fst errors) \<and> list_all (\<lambda>item. wf_dict (snd item)) errors)"

definition same_dict :: "dict \<Rightarrow> dict \<Rightarrow> bool" where
  \<comment> \<open>the same contents, whatever the insertion order\<close>
  "same_dict d d' = (set d = set d')"

definition same_dd :: "defaultdict \<Rightarrow> defaultdict \<Rightarrow> string list \<Rightarrow> bool" where
  \<comment> \<open>the same contents under each of the given class codes\<close>
  "same_dd errors errors' cs = list_all (\<lambda>c. same_dict (dd_get errors c) (dd_get errors' c)) cs"

definition sorted_keys :: "dict \<Rightarrow> string list" where
  \<comment> \<open>the keys in ascending order, each once\<close>
  "sorted_keys d = sorted_list_of_set (set (map fst d))"

definition value_of :: "dict \<Rightarrow> string \<Rightarrow> string" where
  \<comment> \<open>the value stored under a key that is present\<close>
  "value_of d k = (case map_of d k of Some v \<Rightarrow> v | None \<Rightarrow> [])"

fun before_sep :: "string \<Rightarrow> string \<Rightarrow> string" where
  \<comment> \<open>the text before the first occurrence of the separator (all of it when there is none)\<close>
  "before_sep sep [] = []"
| "before_sep sep (c # cs) = (if startswith sep (c # cs) then [] else c # before_sep sep cs)"

fun after_sep :: "string \<Rightarrow> string \<Rightarrow> string option" where
  \<comment> \<open>the text following the first occurrence of the separator, if there is one\<close>
  "after_sep sep [] = None"
| "after_sep sep (c # cs) =
     (if startswith sep (c # cs) then Some (drop (length sep) (c # cs)) else after_sep sep cs)"

definition ident_of_text :: "string \<Rightarrow> string" where
  \<comment> \<open>truncate at the first parenthesis, trim, replace spaces and slashes by underscores,
      upper-case, prefix\<close>
  "ident_of_text t =
     ''CLASS_'' @ upper (replace_char (CHR ''/'') (CHR ''_'')
       (replace_char (CHR '' '') (CHR ''_'') (strip (takeWhile (\<lambda>c. c \<noteq> CHR ''('') t))))"

definition spec_class_ident :: "string \<Rightarrow> string option" where
  \<comment> \<open>the identifier as the specification words it: from all the text following the first
      separator\<close>
  "spec_class_ident clslabel =
     (case after_sep '' - '' clslabel of None \<Rightarrow> None | Some t \<Rightarrow> Some (ident_of_text t))"

definition class_ident :: "string \<Rightarrow> string option" where
  \<comment> \<open>the identifier from the text between the first separator and the next one\<close>
  "class_ident clslabel =
     (case after_sep '' - '' clslabel of
        None \<Rightarrow> None
      | Some t \<Rightarrow> Some (ident_of_text (before_sep '' - '' t)))"

definition no_sentinel :: "string list \<Rightarrow> bool" where
  \<comment> \<open>no line starts with the sentinel\<close>
  "no_sentinel ls = list_all (\<lambda>l. \<not> startswith sentinel l) ls"

definition labelled :: "dict \<Rightarrow> bool" where
  \<comment> \<open>every class label holds the separator\<close>
  "labelled classes = list_all (\<lambda>item. after_sep '' - '' (snd item) \<noteq> None) classes"

definition spec_class_decl :: "dict \<Rightarrow> string \<Rightarrow> string" where
  \<comment> \<open>the declaration that binds the identifier of a class to its code\<close>
  "spec_class_decl classes c =
     (case class_ident (value_of classes c) of Some i \<Rightarrow> i | None \<Rightarrow> []) @
     '' = '' @ py_repr c"

definition spec_error_decl :: "dict \<Rightarrow> string \<Rightarrow> string" where
  \<comment> \<open>the declaration that binds the symbolic label of an error to its code\<close>
  "spec_error_decl cerrs k = value_of cerrs k @ '' = '' @ py_repr k"

definition spec_section :: "dict \<Rightarrow> defaultdict \<Rightarrow> string \<Rightarrow> string list" where
  \<comment> \<open>a blank line, the comment with the class label, the declarations of the errors of
      the class by ascending error code\<close>
  "spec_section classes errors c =
     [[], ''# '' @ value_of classes c] @
     map (spec_error_decl (dd_get errors c)) (sorted_keys (dd_get errors c))"

definition spec_block :: "dict \<Rightarrow> defaultdict \<Rightarrow> string list" where
  \<comment> \<open>the generated block as the specification describes it\<close>
  "spec_block classes errors =
     [[], ''# Error classes''] @
     map (spec_class_decl classes) (sorted_keys classes) @
     concat (map (spec_section classes errors) (sorted_keys classes))"

definition quoted :: "string \<Rightarrow> string" where
  \<comment> \<open>a text between single quotes\<close>
  "quoted s = [CHR 0x27] @ s @ [CHR 0x27]"

definition final_label ::
  "error + (dict \<times> defaultdict) \<Rightarrow> string \<Rightarrow> string \<Rightarrow> error + string option" where
  \<comment> \<open>the entry of the error registry a parse or a merge ends with\<close>
  "final_label r c k =
     (case r of Inl e \<Rightarrow> Inl e | Inr (classes, errors) \<Rightarrow> Inr (lookup2 errors c k))"

definition final_class ::
  "error + (dict \<times> defaultdict) \<Rightarrow> string \<Rightarrow> error + string option" where
  \<comment> \<open>the entry of the class registry a parse or a merge ends with\<close>
  "final_class r c =
     (case r of Inl e \<Rightarrow> Inl e | Inr (classes, errors) \<Rightarrow> Inr (map_of classes c))"

definition blanks :: "string \<Rightarrow> bool" where
  \<comment> \<open>a non-empty run of white space\<close>
  "blanks ws = (ws \<noteq> [] \<and> list_all isspace ws)"

definition token :: "string \<Rightarrow> bool" where
  \<comment> \<open>a non-empty run of characters that are not white space\<close>
  "token t = (t \<noteq> [] \<and> list_all (\<lambda>c. \<not> isspace c) t)"

definition severity :: "char \<Rightarrow> bool" where
  \<comment> \<open>one of the three severity letters\<close>
  "severity sev = (sev = CHR ''E'' \<or> sev = CHR ''W'' \<or> sev = CHR ''S'')"

definition entry_text :: "string \<Rightarrow> string \<Rightarrow> char \<Rightarrow> string \<Rightarrow> string \<Rightarrow> string" where
  \<comment> \<open>an error-entry line up to its macro token\<close>
  "entry_text errcode ws1 sev ws2 macro = errcode @ ws1 @ [sev] @ ws2 @ ''ERRCODE_'' @ macro"

definition entry_fields :: "string \<Rightarrow> string \<Rightarrow> char \<Rightarrow> string \<Rightarrow> string \<Rightarrow> bool" where
  \<comment> \<open>the error-entry shape: a code of five characters, a severity letter, a macro token
      after the fixed prefix, separated by white space\<close>
  "entry_fields errcode ws1 sev ws2 macro =
     (length errcode = 5 \<and> list_all dot errcode \<and> blanks ws1 \<and> severity sev \<and>
      blanks ws2 \<and> token macro)"

subsection \<open>Example documents\<close>

definition doc_a :: "string list" where
  "doc_a =
    [''# errcodes\<newline>'',
     ''\<newline>'',
     ''Section: Class 22 - Data Exception\<newline>'',
     ''22000 E ERRCODE_DATA_EXCEPTION data_exception\<newline>'',
     ''22001 E ERRCODE_TRUNCATION trunc\<newline>'',
     ''22020 E ERRCODE_LIMIT limit_value\<newline>'',
     ''2200X E ERRCODE_HIDDEN # no spec\<newline>'']"

definition doc_b :: "string list" where
  "doc_b =
    [''Section: Class 22 - Data Exception (revised)\<newline>'',
     ''22001 E ERRCODE_TRUNCATION string_data_right_truncation\<newline>'',
     ''Section: Class 23 - Integrity\<newline>'',
     ''22000 E ERRCODE_DATA_EXCEPTION moved_exception\<newline>'',
     ''22020 E ERRCODE_LIMIT moved_limit\<newline>'']"

definition net_ab :: "string \<Rightarrow> error + string list" where
  \<comment> \<open>a network that serves \<open>doc_a\<close> for 9.1 and \<open>doc_b\<close> for 9.2\<close>
  "net_ab url =
     (if url = errors_txt_url ''REL9_1_STABLE'' then Inr doc_a
      else if url = errors_txt_url ''REL9_2_STABLE'' then Inr doc_b
      else Inl URLError)"

definition doc_two_separators :: "string list" where
  \<comment> \<open>a document whose class label holds the separator twice\<close>
  "doc_two_separators = [''Section: Class 22 - Syntax - Extra\<newline>'']"

definition net_two_separators :: "string \<Rightarrow> error + string list" where
  "net_two_separators url = Inr doc_two_separators"

definition classes_ab :: dict where
  \<comment> \<open>the registries that the merge of 9.1 and 9.2 over \<open>net_ab\<close> ends with\<close>
  "classes_ab =
     [(''22'', ''Class 22 - Data Exception (revised)''), (''23'', ''Class 23 - Integrity'')]"

definition errors_ab :: defaultdict where
  "errors_ab =
     [(''22'', [(''22020'', ''INVALID_LIMIT_VALUE''), (''22000'', ''DATA_EXCEPTION''),
                (''22001'', ''STRING_DATA_RIGHT_TRUNCATION'')]),
      (''23'', [(''22000'', ''MOVED_EXCEPTION''), (''22020'', ''MOVED_LIMIT'')])]"

definition classes_ba :: dict where
  \<comment> \<open>the same contents, inserted in another order\<close>
  "classes_ba =
     [(''23'', ''Class 23 - Integrity''), (''22'', ''Class 22 - Data Exception (revised)'')]"

definition errors_ba :: defaultdict where
  "errors_ba =
     [(''23'', [(''22020'', ''MOVED_LIMIT''), (''22000'', ''MOVED_EXCEPTION'')]),
      (''22'', [(''22001'', ''STRING_DATA_RIGHT_TRUNCATION''), (''22000'', ''DATA_EXCEPTION''),
                (''22020'', ''INVALID_LIMIT_VALUE'')])]"

definition block_ab :: "string list" where
  "block_ab =
     [[],
      ''# Error classes'',
      ''CLASS_DATA_EXCEPTION = '' @ quoted ''22'',
      ''CLASS_INTEGRITY = '' @ quoted ''23'',
      [],
      ''# Class 22 - Data Exception (revised)'',
      ''DATA_EXCEPTION = '' @ quoted ''22000'',
      ''STRING_DATA_RIGHT_TRUNCATION = '' @ quoted ''22001'',
      ''INVALID_LIMIT_VALUE = '' @ quoted ''22020'',
      [],
      ''# Class 23 - Integrity'',
      ''MOVED_EXCEPTION = '' @ quoted ''22000'',
      ''MOVED_LIMIT = '' @ quoted ''22020'']"



definition net_down :: "string \<Rightarrow> error + string list" where
  \<comment> \<open>a network on which every request fails\<close>
  "net_down url = Inl URLError"

definition argv_ex :: "string list" where
  "argv_ex = [''make_errorcodes.py'', ''errorcodes.py'']"


definition fs_plain :: files where
  \<comment> \<open>a target file without the sentinel line\<close>
  "fs_plain = [''errorcodes.py'' \<mapsto> Decodes ''import x\<newline>old = 1\<newline>'']"

definition fs_cr :: files where
  \<comment> \<open>a target file whose lines end with carriage returns\<close>
  "fs_cr = [''errorcodes.py'' \<mapsto> Decodes (''x'' @ [carriage_return] @ ''# autogenerated'' @
     [carriage_return, newline] @ ''old'')]"

definition fs_broken :: files where
  \<comment> \<open>a target file without the sentinel line whose decoding fails after one line\<close>
  "fs_broken = [''errorcodes.py'' \<mapsto> Undecodable [''import x\<newline>'']]"

definition doc_one :: "string list" where
  "doc_one =
    [''Section: Class 08 - Connection\<newline>'',
     ''Section: Class 22 - Data Exception\<newline>'',
     ''22001 E ERRCODE_T first\<newline>'',
     ''22003 E ERRCODE_X kept_a\<newline>'',
     ''22004 E ERRCODE_M moved_a\<newline>'',
     ''22005 E ERRCODE_P p\<newline>'',
     ''22020 E ERRCODE_L one\<newline>'']"

definition doc_two :: "string list" where
  "doc_two =
    [''Section: Class 08 - Connection Exception\<newline>'',
     ''Section: Class 22 - Data Exception (revised)\<newline>'',
     ''22001 E ERRCODE_T second\<newline>'',
     ''22003 E ERRCODE_X kept_b\<newline>'',
     ''22020 E ERRCODE_L two\<newline>'',
     ''Section: Class 23 - Integrity\<newline>'',
     ''22005 E ERRCODE_P q\<newline>'']"

definition doc_three :: "string list" where
  "doc_three =
    [''Section: Class 22 - Data\<newline>'',
     ''22001 E ERRCODE_T third\<newline>'',
     ''22005 E ERRCODE_P r\<newline>'',
     ''Section: Class 23 - Integrity\<newline>'',
     ''22004 E ERRCODE_M moved_b\<newline>'',
     ''22005 E ERRCODE_P s\<newline>'']"

definition net_123 :: "string \<Rightarrow> error + string list" where
  \<comment> \<open>a network that serves the three documents for 9.1, 9.2 and 9.3\<close>
  "net_123 url =
     (if url = errors_txt_url ''REL9_1_STABLE'' then Inr doc_one
      else if url = errors_txt_url ''REL9_2_STABLE'' then Inr doc_two
      else if url = errors_txt_url ''REL9_3_STABLE'' then Inr doc_three
      else Inl URLError)"

definition classes_123 :: dict where
  \<comment> \<open>the registries that the merge of 9.1, 9.2 and 9.3 over \<open>net_123\<close> ends with\<close>
  "classes_123 =
     [(''08'', ''Class 08 - Connection Exception''), (''22'', ''Class 22 - Data''),
      (''23'', ''Class 23 - Integrity'')]"

definition errors_123 :: defaultdict where
  "errors_123 =
     [(''22'', [(''22020'', ''INVALID_LIMIT_VALUE''), (''22001'', ''THIRD''),
                (''22003'', ''KEPT_B''), (''22004'', ''MOVED_A''), (''22005'', ''R'')]),
      (''23'', [(''22005'', ''S''), (''22004'', ''MOVED_B'')])]"

definition doc_headless :: "string list" where
  \<comment> \<open>a document whose first entry comes before any class header\<close>
  "doc_headless =
    [''# errcodes\<newline>'', ''\<newline>'', ''22000 E ERRCODE_DATA_EXCEPTION data_exception\<newline>'',
     ''Section: Class 22 - Data Exception\<newline>'']"

definition net_headless :: "string \<Rightarrow> error + string list" where
  "net_headless url = Inr doc_headless"

section \<open>Properties\<close>

subsection \<open>The two patterns\<close>

lemma isspace_E [simp]: "isspace c \<Longrightarrow> c \<noteq> CHR ''E''" "isspace c \<Longrightarrow> c \<noteq> CHR ''W''" "isspace c \<Longrightarrow> c \<noteq> CHR ''S''" "isspace c \<Longrightarrow> c \<noteq> CHR ''o''"
  by (auto simp add: isspace_def)

lemma dropWhile_run:
  "list_all P ws \<Longrightarrow> (r = [] \<or> \<not> P (hd r)) \<Longrightarrow> dropWhile P (ws @ r) = r"
  by (cases r) (auto simp: list_all_iff dropWhile_append3)

lemma takeWhile_run:
  "list_all P ws \<Longrightarrow> (r = [] \<or> \<not> P (hd r)) \<Longrightarrow> takeWhile P (ws @ r) = ws"
  by (cases r) (auto simp: list_all_iff takeWhile_tail)

lemma startswith_append: "startswith p s \<Longrightarrow> \<exists>r. s = p @ r"
  unfolding startswith_def by (metis append_take_drop_id)

lemma spaces1_run:
  "ws \<noteq> [] \<Longrightarrow> list_all isspace ws \<Longrightarrow> (r = [] \<or> \<not> isspace (hd r)) \<Longrightarrow> spaces1 (ws @ r) = Some r"
  by (cases ws) (auto simp: spaces1_def dropWhile_run)

lemma nonspaces1_run:
  "tok \<noteq> [] \<Longrightarrow> list_all (\<lambda>c. \<not> isspace c) tok \<Longrightarrow> (r = [] \<or> isspace (hd r)) \<Longrightarrow>
     nonspaces1 (tok @ r) = Some (tok, r)"
  using takeWhile_run [of "\<lambda>c. \<not> isspace c" tok r] dropWhile_run [of "\<lambda>c. \<not> isspace c" tok r]
  by (cases tok) (auto simp: nonspaces1_def)

lemma match_tail_spec:
  assumes "ws \<noteq> []" "list_all isspace ws" "spec \<noteq> []" "list_all (\<lambda>c. \<not> isspace c) spec"
  shows "match_tail (ws @ spec) = Some (Some spec)"
proof -
  have "spaces1 (ws @ spec) = Some spec"
    using assms by (intro spaces1_run) (auto simp: neq_Nil_conv)
  moreover have "nonspaces1 spec = Some (spec, [])"
    using nonspaces1_run [of spec "[]"] assms by simp
  ultimately show ?thesis by (simp add: match_tail_def at_end_def)
qed


lemma match_error_shape:
  assumes "entry_fields errcode ws1 sev ws2 macro"
    and "match_tail r = Some spec" "r = [] \<or> isspace (hd r)"
  shows "match_error (entry_text errcode ws1 sev ws2 macro @ r) = Some (errcode, macro, spec)"
proof -
  let ?l3 = "''ERRCODE_'' @ macro @ r"
  let ?l2 = "sev # ws2 @ ?l3"
  from assms(1) have f: "length errcode = 5" "list_all dot errcode"
    "ws1 \<noteq> []" "list_all isspace ws1"
    "sev = CHR ''E'' \<or> sev = CHR ''W'' \<or> sev = CHR ''S''"
    "ws2 \<noteq> []" "list_all isspace ws2"
    "macro \<noteq> []" "list_all (\<lambda>c. \<not> isspace c) macro"
    by (simp_all add: entry_fields_def blanks_def token_def severity_def)
  have s1: "spaces1 (ws1 @ ?l2) = Some ?l2"
    using f by (intro spaces1_run) (auto simp: isspace_def)
  have s2: "spaces1 (ws2 @ ?l3) = Some ?l3"
    using f by (intro spaces1_run) (auto simp: isspace_def)
  have s3: "nonspaces1 (macro @ r) = Some (macro, r)"
    using f assms(3) by (intro nonspaces1_run) auto
  show ?thesis
    using f(1,2,5) s1 s2 s3 assms(2)
    by (simp add: match_error_def startswith_def entry_text_def)
qed

lemma match_error_with_spec:
  assumes "entry_fields errcode ws1 sev ws2 macro" "blanks ws3" "token spec"
  shows "match_error (entry_text errcode ws1 sev ws2 macro @ ws3 @ spec)
           = Some (errcode, macro, Some spec)"
proof -
  have t: "match_tail (ws3 @ spec) = Some (Some spec)"
    using assms(2,3) by (simp add: match_tail_spec blanks_def token_def)
  have "ws3 @ spec = [] \<or> isspace (hd (ws3 @ spec))"
    using assms(2) by (cases ws3) (auto simp: blanks_def)
  with match_error_shape [OF assms(1) t] show ?thesis by simp
qed


lemma match_error_not_section:
  assumes "match_error line = Some r"
  shows "match_section line = None"
proof (cases "startswith ''Section: Class '' line")
  case False
  then show ?thesis by (simp add: match_section_def)
next
  case True
  then obtain t where "line = ''Section: Class '' @ t"
    using startswith_append by blast
  then have "drop 5 line = ''on: Class '' @ t" by simp
  then have "spaces1 (drop 5 line) = None"
    by (simp add: spaces1_def isspace_def)
  with assms show ?thesis
    by (simp add: match_error_def Let_def split: if_splits)
qed

lemma match_error_nonempty: "match_error line = Some r \<Longrightarrow> line \<noteq> []"
  by (auto simp: match_error_def)

subsection \<open>The loop over the lines\<close>

lemma lookup2_dd_setitem:
  "lookup2 (dd_setitem errors c k v) c' k' =
     (if c' = c \<and> k' = k then Some v else lookup2 errors c' k')"
  by (simp add: lookup2_def dd_setitem_def dd_get_def update_conv')

lemma parse_line_error_entry:
  assumes "decode_ascii raw = Inr s"
    and "match_error (clean_line s) = Some (errcode, macro, spec)"
  shows "parse_line raw (classes, errors, cur) =
    (case spec of
       None \<Rightarrow> Inr (classes, errors, cur)
     | Some sp \<Rightarrow>
        (case cur of
           None \<Rightarrow> Inl UnboundLocalError
         | Some c \<Rightarrow> Inr (classes, dd_setitem errors c errcode (upper sp), cur)))"
  using assms match_error_not_section [OF assms(2)] match_error_nonempty [OF assms(2)]
  by (simp add: parse_line_def)

lemma parse_line_skip:
  "decode_ascii raw = Inr s \<Longrightarrow> clean_line s = [] \<Longrightarrow> parse_line raw st = Inr st"
  by (cases st) (simp add: parse_line_def)

lemma parse_loop_append:
  "parse_loop (xs @ ys) st =
     (case parse_loop xs st of Inl e \<Rightarrow> Inl e | Inr st' \<Rightarrow> parse_loop ys st')"
  by (induction xs arbitrary: st) (auto split: sum.splits)

lemma parse_loop_skip:
  "\<forall>b \<in> set before. \<exists>t. decode_ascii b = Inr t \<and> clean_line t = [] \<Longrightarrow>
     parse_loop before st = Inr st"
  by (induction before) (auto simp: parse_line_skip)

subsection \<open>Updates and lookups\<close>

lemma set_update_subset: "set (AList.update k v al) \<subseteq> insert (k, v) (set al)"
  by (induction al) auto

lemma wf_dict_update: "wf_dict d \<Longrightarrow> wf_dict (AList.update k v d)"
  by (simp add: wf_dict_def distinct_update)

lemma wf_dict_dict_update: "wf_dict d \<Longrightarrow> wf_dict (dict_update d other)"
  unfolding dict_update_def
  by (induction other arbitrary: d) (auto simp: wf_dict_update)

lemma wf_dict_dd_get: "wf_dd errors \<Longrightarrow> wf_dict (dd_get errors c)"
  by (auto simp: wf_dd_def dd_get_def wf_dict_def list_all_iff split: option.splits
      dest!: map_of_SomeD)

lemma wf_dd_update_entry: "wf_dd errors \<Longrightarrow> wf_dict d \<Longrightarrow> wf_dd (AList.update c d errors)"
  using set_update_subset [of c d errors]
  by (auto simp: wf_dd_def distinct_update list_all_iff)

lemma wf_dd_setitem: "wf_dd errors \<Longrightarrow> wf_dd (dd_setitem errors c k v)"
  by (simp add: dd_setitem_def wf_dd_update_entry wf_dict_update wf_dict_dd_get)

lemma wf_dd_dd_update: "wf_dd errors \<Longrightarrow> wf_dd (dd_update errors c cerrs)"
  by (simp add: dd_update_def wf_dd_update_entry wf_dict_dict_update wf_dict_dd_get)

lemma wf_dd_merge_errors: "wf_dd errors \<Longrightarrow> wf_dd (merge_errors errors e1)"
  unfolding merge_errors_def
  by (induction e1 arbitrary: errors) (auto simp: wf_dd_dd_update)

lemma map_of_dict_update:
  "wf_dict other \<Longrightarrow>
     map_of (dict_update d other) k =
       (case map_of other k of Some v \<Rightarrow> Some v | None \<Rightarrow> map_of d k)"
  unfolding dict_update_def wf_dict_def
proof (induction other arbitrary: d)
  case Nil
  then show ?case by simp
next
  case (Cons p rest)
  obtain k0 v0 where p: "p = (k0, v0)" by (cases p)
  from Cons.prems p have d: "distinct (map fst rest)" and n: "map_of rest k0 = None"
    by (auto simp: map_of_eq_None_iff)
  show ?case
    using Cons.IH [OF d, of "AList.update k0 v0 d"] n
    by (auto simp: p update_conv' split: option.splits)
qed

lemma dd_get_update_entry:
  "dd_get (AList.update c d errors) c' = (if c' = c then d else dd_get errors c')"
  by (simp add: dd_get_def update_conv')

lemma lookup2_dd_update:
  "wf_dict cerrs \<Longrightarrow>
     lookup2 (dd_update errors c cerrs) c' k =
       (if c' = c
        then (case map_of cerrs k of Some v \<Rightarrow> Some v | None \<Rightarrow> lookup2 errors c k)
        else lookup2 errors c' k)"
  by (auto simp: lookup2_def dd_update_def dd_get_update_entry map_of_dict_update
      split: option.splits)

lemma lookup2_Nil [simp]: "lookup2 [] c k = None"
  by (simp add: lookup2_def dd_get_def)

lemma lookup2_Cons:
  "lookup2 ((c0, d0) # e) c k = (if c = c0 then map_of d0 k else lookup2 e c k)"
  by (simp add: lookup2_def dd_get_def)

lemma lookup2_absent: "c \<notin> fst ` set e \<Longrightarrow> lookup2 e c k = None"
proof -
  assume "c \<notin> fst ` set e"
  then have "map_of e c = None" by (simp add: map_of_eq_None_iff)
  then show ?thesis by (simp add: lookup2_def dd_get_def)
qed

lemma wf_dd_Cons:
  "wf_dd (p # e) \<longleftrightarrow> fst p \<notin> fst ` set e \<and> wf_dict (snd p) \<and> wf_dd e"
  by (auto simp: wf_dd_def)

lemma lookup2_merge_errors:
  "wf_dd e1 \<Longrightarrow>
     lookup2 (merge_errors errors e1) c k =
       (case lookup2 e1 c k of Some v \<Rightarrow> Some v | None \<Rightarrow> lookup2 errors c k)"
  unfolding merge_errors_def
proof (induction e1 arbitrary: errors)
  case Nil
  then show ?case by simp
next
  case (Cons p rest)
  obtain c0 d0 where p: "p = (c0, d0)" by (cases p)
  from Cons.prems p have w: "wf_dd rest" and d0: "wf_dict d0" and n: "c0 \<notin> fst ` set rest"
    by (auto simp: wf_dd_Cons)
  have n': "lookup2 rest c0 k = None" using n by (rule lookup2_absent)
  show ?case
    using Cons.IH [OF w, of "dd_update errors c0 d0"] n'
    by (auto simp: p lookup2_Cons lookup2_dd_update [OF d0] split: option.splits)
qed

subsection \<open>The parser keeps the registries well formed\<close>

lemma parse_line_wf:
  assumes "parse_line raw (classes, errors, cur) = Inr (classes', errors', cur')"
    and "wf_dict classes" "wf_dd errors"
  shows "wf_dict classes' \<and> wf_dd errors'"
  using assms
  by (auto simp: parse_line_def Let_def wf_dict_update wf_dd_setitem
      split: sum.splits if_splits option.splits prod.splits)

lemma parse_loop_wf:
  assumes "parse_loop page (classes, errors, cur) = Inr (classes', errors', cur')"
    and "wf_dict classes" "wf_dd errors"
  shows "wf_dict classes' \<and> wf_dd errors'"
  using assms
proof (induction page arbitrary: classes errors cur)
  case Nil
  then show ?case by simp
next
  case (Cons raw page)
  from Cons.prems(1) obtain st where st: "parse_line raw (classes, errors, cur) = Inr st"
    and rest: "parse_loop page st = Inr (classes', errors', cur')"
    by (auto split: sum.splits)
  obtain c e u where [simp]: "st = (c, e, u)" by (cases st)
  from parse_line_wf [OF st [simplified] Cons.prems(2,3)] have "wf_dict c" "wf_dd e" by auto
  with Cons.IH [of c e u] rest show ?case by simp
qed

lemma wf_empty [simp]: "wf_dict []" "wf_dd []"
  by (simp_all add: wf_dict_def wf_dd_def)

lemma parse_errors_txt_wf:
  "parse_errors_txt urlopen url = Inr (c1, e1) \<Longrightarrow> wf_dict c1 \<and> wf_dd e1"
  using parse_loop_wf [of _ "[]" "[]" None c1 e1]
  by (auto simp: parse_errors_txt_def split: sum.splits prod.splits)

lemma parse_version_wf:
  "parse_version urlopen version = Inr (c1, e1) \<Longrightarrow> wf_dict c1 \<and> wf_dd e1"
  by (auto simp: parse_version_def split: sum.splits dest: parse_errors_txt_wf)

subsection \<open>The merge\<close>

lemma fetch_loop_append:
  "fetch_loop urlopen (vs @ ws) st =
     (case fetch_loop urlopen vs st of Inl e \<Rightarrow> Inl e | Inr st' \<Rightarrow> fetch_loop urlopen ws st')"
  by (induction vs arbitrary: st) (auto split: sum.splits)

lemma fetch_loop_last:
  assumes "fetch_loop urlopen (vs @ [v]) st = Inr (classes, errors)"
    and "parse_version urlopen v = Inr (c1, e1)"
  obtains classes0 errors0 where "fetch_loop urlopen vs st = Inr (classes0, errors0)"
    and "(classes, errors) = merge_version (classes0, errors0) (c1, e1)"
  using assms by (auto simp: fetch_loop_append split: sum.splits)

lemma merge_version_errors:
  assumes "wf_dd e1"
  shows "lookup2 (snd (merge_version (classes0, errors0) (c1, e1))) c k =
     (case lookup2 e1 c k of
        Some v \<Rightarrow> Some v
      | None \<Rightarrow> if c = ''22'' \<and> k = ''22020'' then Some ''INVALID_LIMIT_VALUE''
                else lookup2 errors0 c k)"
  by (auto simp: merge_version_def lookup2_merge_errors [OF assms] lookup2_dd_setitem
      split: option.splits)

lemma merge_version_classes:
  assumes "wf_dict c1"
  shows "map_of (fst (merge_version (classes0, errors0) (c1, e1))) c =
     (case map_of c1 c of Some l \<Rightarrow> Some l | None \<Rightarrow> map_of classes0 c)"
  by (simp add: merge_version_def map_of_dict_update [OF assms])

subsection \<open>Splitting at a separator\<close>

lemma split_str_unroll:
  "sep \<noteq> [] \<Longrightarrow>
     split_str sep s =
       before_sep sep s # (case after_sep sep s of None \<Rightarrow> [] | Some r \<Rightarrow> split_str sep r)"
proof (induction s)
  case Nil
  then show ?case by (simp add: startswith_def)
next
  case (Cons c cs)
  from Cons.prems obtain x xs where sep: "sep = x # xs" by (cases sep) auto
  show ?case
  proof (cases "startswith sep (c # cs)")
    case True
    then show ?thesis using Cons.prems by (simp add: sep)
  next
    case False
    then show ?thesis using Cons.IH [OF Cons.prems] by simp
  qed
qed

lemma before_sep_char: "before_sep [c] s = takeWhile (\<lambda>x. x \<noteq> c) s"
  by (induction s) (auto simp: startswith_def)

lemma class_err_ident:
  "class_err clslabel =
     (case after_sep '' - '' clslabel of
        None \<Rightarrow> Inl IndexError
      | Some t \<Rightarrow>
          Inr (upper (replace_char (CHR ''/'') (CHR ''_'')
                 (replace_char (CHR '' '') (CHR ''_'')
                    (strip (takeWhile (\<lambda>c. c \<noteq> CHR ''('') (before_sep '' - '' t)))))))"
proof -
  have s1: "split_str '' - '' clslabel =
      before_sep '' - '' clslabel #
        (case after_sep '' - '' clslabel of None \<Rightarrow> [] | Some r \<Rightarrow> split_str '' - '' r)"
    by (rule split_str_unroll) simp
  show ?thesis
  proof (cases "after_sep '' - '' clslabel")
    case None
    then show ?thesis using s1 by (simp add: class_err_def)
  next
    case (Some t)
    have s2: "split_str '' - '' t =
      before_sep '' - '' t #
        (case after_sep '' - '' t of None \<Rightarrow> [] | Some r \<Rightarrow> split_str '' - '' r)"
      by (rule split_str_unroll) simp
    have s3: "split_str ''('' (before_sep '' - '' t) =
      takeWhile (\<lambda>c. c \<noteq> CHR ''('') (before_sep '' - '' t) #
        (case after_sep ''('' (before_sep '' - '' t) of None \<Rightarrow> []
         | Some r \<Rightarrow> split_str ''('' r)"
      using split_str_unroll [of "''(''" "before_sep '' - '' t"]
      by (simp add: before_sep_char)
    show ?thesis
      unfolding class_err_def s1 Some option.case s2 list.case s3 by simp
  qed
qed

subsection \<open>Sorting the items of a dictionary\<close>

lemma wf_dict_distinct: "wf_dict d \<Longrightarrow> distinct d"
  unfolding wf_dict_def by (rule distinct_map [THEN iffD1, THEN conjunct1])

lemma value_of_item: "wf_dict d \<Longrightarrow> (k, v) \<in> set d \<Longrightarrow> value_of d k = v"
  by (simp add: wf_dict_def value_of_def)

lemma set_keyed_items:
  assumes "wf_dict d"
  shows "set (map (\<lambda>k. (k, value_of d k)) (sorted_keys d)) = set d"
proof -
  have "(\<lambda>k. (k, value_of d k)) ` fst ` set d = set d"
    using value_of_item [OF assms] by (force simp: image_iff)
  then show ?thesis by (simp add: sorted_keys_def)
qed

lemma sorted_keyed_items:
  "sorted_wrt (<) (map (\<lambda>k. (k, value_of d k)) (sorted_keys d))"
proof -
  have "sorted_wrt (<) (sorted_keys d)"
    by (simp add: sorted_keys_def)
  then have "sorted_wrt (\<lambda>x y. (x, value_of d x) < (y, value_of d y)) (sorted_keys d)"
    by (rule sorted_wrt_mono_rel [rotated]) (simp add: less_prod_def)
  then show ?thesis by (simp add: sorted_wrt_map)
qed

lemma sort_items:
  assumes "wf_dict d"
  shows "sort d = map (\<lambda>k. (k, value_of d k)) (sorted_keys d)"
proof (rule sorted_distinct_set_unique)
  show "sorted (sort d)" by simp
  show "distinct (sort d)" using wf_dict_distinct [OF assms] by simp
  show "sorted (map (\<lambda>k. (k, value_of d k)) (sorted_keys d))"
    using sorted_keyed_items [of d] by (simp add: strict_sorted_iff)
  show "distinct (map (\<lambda>k. (k, value_of d k)) (sorted_keys d))"
    using sorted_keyed_items [of d] by (simp add: strict_sorted_iff)
  show "set (sort d) = set (map (\<lambda>k. (k, value_of d k)) (sorted_keys d))"
    using set_keyed_items [OF assms] by simp
qed

lemma sort_same_dict:
  assumes "wf_dict d" "wf_dict d'" "same_dict d d'"
  shows "sort d = sort d'"
proof (rule sorted_distinct_set_unique)
  show "sorted (sort d)" "sorted (sort d')" by simp_all
  show "distinct (sort d)" using wf_dict_distinct [OF assms(1)] by simp
  show "distinct (sort d')" using wf_dict_distinct [OF assms(2)] by simp
  show "set (sort d) = set (sort d')" using assms(3) by (simp add: same_dict_def)
qed

subsection \<open>The lines of the two loops\<close>

lemma class_lines_labelled:
  "labelled items \<Longrightarrow>
     class_lines items =
       (map (\<lambda>item. (case class_ident (snd item) of Some i \<Rightarrow> i | None \<Rightarrow> []) @
               '' = '' @ py_repr (fst item)) items, None)"
proof (induction items)
  case Nil
  then show ?case by simp
next
  case (Cons item items)
  obtain c l where item: "item = (c, l)" by (cases item)
  from Cons.prems obtain t where t: "after_sep '' - '' l = Some t" and r: "labelled items"
    by (auto simp: labelled_def item)
  have "class_line c l = Inr (ident_of_text (before_sep '' - '' t) @ '' = '' @ py_repr c)"
    by (simp add: class_line_def class_err_ident ident_of_text_def t)
  then show ?case
    using Cons.IH [OF r] by (simp add: item class_ident_def t)
qed

lemma labelled_sort: "labelled (sort d) = labelled d"
  by (simp add: labelled_def list_all_iff)

lemma section_lines_spec:
  assumes "wf_dd errors"
  shows "section_lines errors (c, value_of classes c) = spec_section classes errors c"
proof -
  have "wf_dict (dd_get errors c)" using assms by (rule wf_dict_dd_get)
  then show ?thesis
    by (simp add: section_lines_def spec_section_def sort_items error_line_def
        spec_error_decl_def o_def)
qed

subsection \<open>The registries a merge ends with\<close>

lemma after_sep_append: "sep \<noteq> [] \<Longrightarrow> after_sep sep (a @ sep @ b) \<noteq> None"
proof (induction a)
  case Nil
  then show ?case by (cases sep) (auto simp: startswith_def)
next
  case (Cons x a)
  then show ?case by simp
qed

lemma match_section_label:
  assumes "match_section line = Some (label, cls)"
  shows "after_sep '' - '' label \<noteq> None"
proof -
  from assms obtain descr where "label = (''Class '' @ cls) @ '' - '' @ descr"
    by (auto simp: match_section_def Let_def split: if_splits)
  then show ?thesis
    using after_sep_append [of "'' - ''" "''Class '' @ cls"] by simp
qed

lemma labelled_update:
  "labelled d \<Longrightarrow> after_sep '' - '' v \<noteq> None \<Longrightarrow> labelled (AList.update k v d)"
  using set_update_subset [of k v d] by (auto simp: labelled_def list_all_iff)

lemma labelled_dict_update: "labelled d \<Longrightarrow> labelled other \<Longrightarrow> labelled (dict_update d other)"
  unfolding dict_update_def
proof (induction other arbitrary: d)
  case Nil
  then show ?case by simp
next
  case (Cons p other)
  obtain k v where p: "p = (k, v)" by (cases p)
  from Cons.prems(2) have "after_sep '' - '' v \<noteq> None" "labelled other"
    by (simp_all add: labelled_def p)
  with Cons.prems(1) Cons.IH [of "AList.update k v d"] show ?case
    by (simp add: p labelled_update)
qed

lemma parse_line_labelled:
  assumes "parse_line raw (classes, errors, cur) = Inr (classes', errors', cur')"
    and "labelled classes"
  shows "labelled classes'"
  using assms
  by (auto simp: parse_line_def Let_def labelled_update match_section_label
      split: sum.splits if_splits option.splits prod.splits)

lemma parse_loop_labelled:
  assumes "parse_loop page (classes, errors, cur) = Inr (classes', errors', cur')"
    and "labelled classes"
  shows "labelled classes'"
  using assms
proof (induction page arbitrary: classes errors cur)
  case Nil
  then show ?case by simp
next
  case (Cons raw page)
  from Cons.prems(1) obtain st where st: "parse_line raw (classes, errors, cur) = Inr st"
    and rest: "parse_loop page st = Inr (classes', errors', cur')"
    by (auto split: sum.splits)
  obtain c e u where [simp]: "st = (c, e, u)" by (cases st)
  from parse_line_labelled [OF st [simplified] Cons.prems(2)] have "labelled c" .
  with Cons.IH [of c e u] rest show ?case by simp
qed

lemma parse_version_labelled:
  assumes "parse_version urlopen version = Inr (c1, e1)"
  shows "labelled c1"
proof -
  from assms obtain page cur where "parse_loop page ([], [], None) = Inr (c1, e1, cur)"
    by (auto simp: parse_version_def parse_errors_txt_def split: sum.splits prod.splits)
  then show ?thesis
    by (rule parse_loop_labelled) (simp add: labelled_def)
qed

lemma fetch_loop_good:
  assumes "fetch_loop urlopen versions (classes, errors) = Inr (classes', errors')"
    and "wf_dict classes" "wf_dd errors" "labelled classes"
  shows "wf_dict classes' \<and> wf_dd errors' \<and> labelled classes'"
  using assms
proof (induction versions arbitrary: classes errors)
  case Nil
  then show ?case by simp
next
  case (Cons v versions)
  from Cons.prems(1) obtain c1 e1 where p: "parse_version urlopen v = Inr (c1, e1)"
    and rest: "fetch_loop urlopen versions (merge_version (classes, errors) (c1, e1)) =
                 Inr (classes', errors')"
    by (auto split: sum.splits)
  have m: "merge_version (classes, errors) (c1, e1) =
      (dict_update classes c1,
       merge_errors (dd_setitem errors ''22'' ''22020'' ''INVALID_LIMIT_VALUE'') e1)"
    by (simp add: merge_version_def)
  have "wf_dict (dict_update classes c1)"
    using Cons.prems(2) by (rule wf_dict_dict_update)
  moreover have "wf_dd (merge_errors (dd_setitem errors ''22'' ''22020'' ''INVALID_LIMIT_VALUE'') e1)"
    using Cons.prems(3) by (simp add: wf_dd_merge_errors wf_dd_setitem)
  moreover have "labelled (dict_update classes c1)"
    using Cons.prems(4) parse_version_labelled [OF p] by (rule labelled_dict_update)
  ultimately show ?case
    using Cons.IH rest [unfolded m] by blast
qed

lemma fetch_errors_good:
  assumes "fetch_errors urlopen versions = Inr (classes, errors)"
  shows "wf_dict classes \<and> wf_dd errors \<and> labelled classes"
  using assms unfolding fetch_errors_def
  by (rule fetch_loop_good) (simp_all add: labelled_def)

subsection \<open>Reading the base file\<close>

lemma read_loop_missing: "no_sentinel ls \<Longrightarrow> read_loop ls e rv = Inl e"
  unfolding no_sentinel_def by (induction ls arbitrary: rv) auto

lemma read_loop_found:
  "no_sentinel pre \<Longrightarrow> startswith sentinel line \<Longrightarrow>
     read_loop (pre @ line # post) e rv = Inr (rv @ map rstrip_newline (pre @ [line]))"
  unfolding no_sentinel_def by (induction pre arbitrary: rv) auto

subsection \<open>A malformed line\<close>





subsection \<open>Versions that leave an entry alone\<close>

lemma final_label_Some:
  "final_label (parse_version urlopen v) c k = Inr (Some l) \<Longrightarrow>
     \<exists>c1 e1. parse_version urlopen v = Inr (c1, e1) \<and> lookup2 e1 c k = Some l"
  by (auto simp: final_label_def split: sum.splits)

lemma final_label_None:
  "final_label (parse_version urlopen v) c k = Inr None \<Longrightarrow>
     \<exists>c1 e1. parse_version urlopen v = Inr (c1, e1) \<and> lookup2 e1 c k = None"
  by (auto simp: final_label_def split: sum.splits)

lemma final_class_Some:
  "final_class (parse_version urlopen v) c = Inr (Some l) \<Longrightarrow>
     \<exists>c1 e1. parse_version urlopen v = Inr (c1, e1) \<and> map_of c1 c = Some l"
  by (auto simp: final_class_def split: sum.splits)

lemma final_class_None:
  "final_class (parse_version urlopen v) c = Inr None \<Longrightarrow>
     \<exists>c1 e1. parse_version urlopen v = Inr (c1, e1) \<and> map_of c1 c = None"
  by (auto simp: final_class_def split: sum.splits)

lemma fetch_loop_split:
  assumes "fetch_loop urlopen (xs @ ys) st = Inr r"
  obtains classes1 errors1 where "fetch_loop urlopen xs st = Inr (classes1, errors1)"
    and "fetch_loop urlopen ys (classes1, errors1) = Inr r"
proof -
  from assms obtain st1 where "fetch_loop urlopen xs st = Inr st1"
    and "fetch_loop urlopen ys st1 = Inr r"
    by (auto simp: fetch_loop_append split: sum.splits)
  then show ?thesis using that by (cases st1) auto
qed

lemma fetch_loop_keeps_label:
  assumes "fetch_loop urlopen vs (classes0, errors0) = Inr (classes, errors)"
    and "\<forall>v \<in> set vs. final_label (parse_version urlopen v) c k = Inr None"
  shows "lookup2 errors c k =
     (if c = ''22'' \<and> k = ''22020'' \<and> vs \<noteq> [] then Some ''INVALID_LIMIT_VALUE''
      else lookup2 errors0 c k)"
  using assms
proof (induction vs arbitrary: classes0 errors0)
  case Nil
  then show ?case by simp
next
  case (Cons v vs)
  from Cons.prems(2) obtain c1 e1 where p: "parse_version urlopen v = Inr (c1, e1)"
    and n: "lookup2 e1 c k = None"
    using final_label_None [of urlopen v c k] by auto
  obtain classes1 errors1 where m: "merge_version (classes0, errors0) (c1, e1) = (classes1, errors1)"
    by (cases "merge_version (classes0, errors0) (c1, e1)")
  have w: "wf_dd e1" using parse_version_wf [OF p] by simp
  from merge_version_errors [OF w, of classes0 errors0 c1 c k] m n
  have s: "lookup2 errors1 c k =
      (if c = ''22'' \<and> k = ''22020'' then Some ''INVALID_LIMIT_VALUE'' else lookup2 errors0 c k)"
    by simp
  from Cons.prems(1) p m have "fetch_loop urlopen vs (classes1, errors1) = Inr (classes, errors)"
    by simp
  from Cons.IH [OF this] Cons.prems(2) s show ?case by auto
qed

lemma fetch_loop_keeps_class:
  assumes "fetch_loop urlopen vs (classes0, errors0) = Inr (classes, errors)"
    and "\<forall>v \<in> set vs. final_class (parse_version urlopen v) c = Inr None"
  shows "map_of classes c = map_of classes0 c"
  using assms
proof (induction vs arbitrary: classes0 errors0)
  case Nil
  then show ?case by simp
next
  case (Cons v vs)
  from Cons.prems(2) obtain c1 e1 where p: "parse_version urlopen v = Inr (c1, e1)"
    and n: "map_of c1 c = None"
    using final_class_None [of urlopen v c] by auto
  obtain classes1 errors1 where m: "merge_version (classes0, errors0) (c1, e1) = (classes1, errors1)"
    by (cases "merge_version (classes0, errors0) (c1, e1)")
  have w: "wf_dict c1" using parse_version_wf [OF p] by simp
  from merge_version_classes [OF w, of classes0 errors0 e1 c] m n
  have s: "map_of classes1 c = map_of classes0 c" by simp
  from Cons.prems(1) p m have "fetch_loop urlopen vs (classes1, errors1) = Inr (classes, errors)"
    by simp
  from Cons.IH [OF this] Cons.prems(2) s show ?case by auto
qed

lemma fetch_loop_sets_label:
  assumes "fetch_loop urlopen (vs @ [v]) st = Inr (classes, errors)"
    and "final_label (parse_version urlopen v) c k = Inr (Some l)"
  shows "lookup2 errors c k = Some l"
proof -
  from assms(2) obtain c1 e1 where p: "parse_version urlopen v = Inr (c1, e1)"
    and l: "lookup2 e1 c k = Some l"
    using final_label_Some by blast
  from assms(1) p obtain classes0 errors0
    where m: "(classes, errors) = merge_version (classes0, errors0) (c1, e1)"
    by (rule fetch_loop_last)
  have "wf_dd e1" using parse_version_wf [OF p] by simp
  from merge_version_errors [OF this, of classes0 errors0 c1 c k] m [symmetric] l
  show ?thesis by simp
qed

lemma fetch_loop_sets_class:
  assumes "fetch_loop urlopen (vs @ [v]) st = Inr (classes, errors)"
    and "final_class (parse_version urlopen v) c = Inr (Some l)"
  shows "map_of classes c = Some l"
proof -
  from assms(2) obtain c1 e1 where p: "parse_version urlopen v = Inr (c1, e1)"
    and l: "map_of c1 c = Some l"
    using final_class_Some by blast
  from assms(1) p obtain classes0 errors0
    where m: "(classes, errors) = merge_version (classes0, errors0) (c1, e1)"
    by (rule fetch_loop_last)
  have "wf_dict c1" using parse_version_wf [OF p] by simp
  from merge_version_classes [OF this, of classes0 errors0 e1 c] m [symmetric] l
  show ?thesis by simp
qed

section \<open>The claims\<close>

subsection \<open>Error-entry lines\<close>



text \<open>
  Claim C10. When every line before the first error entry with a spec is blank or a
  comment, no class header has bound \<^verbatim>\<open>class_\<close> yet: the parse ends with
  \<^verbatim>\<open>UnboundLocalError\<close>, which is not the \<^verbatim>\<open>ValueError\<close> raised for a malformed line.
\<close>

theorem entry_before_header:
  assumes "urlopen url = Inr (before @ raw # after)"
    and "\<forall>b \<in> set before. \<exists>t. decode_ascii b = Inr t \<and> clean_line t = []"
    and "decode_ascii raw = Inr s"
    and "clean_line s = entry_text errcode ws1 sev ws2 macro @ ws3 @ spec"
    and "entry_fields errcode ws1 sev ws2 macro" "blanks ws3" "token spec"
  shows "parse_errors_txt urlopen url = Inl UnboundLocalError \<and>
         (\<forall>msg. parse_errors_txt urlopen url \<noteq> Inl (ValueError msg))"
proof -
  have "match_error (clean_line s) = Some (errcode, macro, Some spec)"
    using assms(4) match_error_with_spec [OF assms(5-7)] by simp
  then have "parse_line raw ([], [], None) = Inl UnboundLocalError"
    using parse_line_error_entry [OF assms(3)] by simp
  moreover have "parse_loop before ([], [], None) = Inr ([], [], None)"
    using assms(2) by (rule parse_loop_skip)
  ultimately have "parse_loop (before @ raw # after) ([], [], None) = Inl UnboundLocalError"
    by (simp add: parse_loop_append)
  then show ?thesis
    using assms(1) by (simp add: parse_errors_txt_def)
qed

theorem entry_before_header_witness:
  "parse_errors_txt net_headless ''u'' = Inl UnboundLocalError"
proof -
  let ?raw = "''22000 E ERRCODE_DATA_EXCEPTION data_exception\<newline>''"
  have u: "net_headless ''u'' =
      Inr ([''# errcodes\<newline>'', ''\<newline>''] @ ?raw # [''Section: Class 22 - Data Exception\<newline>''])"
    by (simp add: net_headless_def doc_headless_def)
  have b: "\<forall>b \<in> set [''# errcodes\<newline>'', ''\<newline>'']. \<exists>t. decode_ascii b = Inr t \<and> clean_line t = []"
  proof -
    have "decode_ascii ''# errcodes\<newline>'' = Inr ''# errcodes\<newline>'' \<and> clean_line ''# errcodes\<newline>'' = []"
      by code_simp
    moreover have "decode_ascii ''\<newline>'' = Inr ''\<newline>'' \<and> clean_line ''\<newline>'' = []"
      by code_simp
    ultimately show ?thesis by auto
  qed
  have d: "decode_ascii ?raw = Inr ?raw" by code_simp
  have c: "clean_line ?raw =
      entry_text ''22000'' '' '' (CHR ''E'') '' '' ''DATA_EXCEPTION'' @ '' '' @ ''data_exception''"
    by code_simp
  have f: "entry_fields ''22000'' '' '' (CHR ''E'') '' '' ''DATA_EXCEPTION''" by code_simp
  have w: "blanks '' ''" by code_simp
  have t: "token ''data_exception''" by code_simp
  from entry_before_header [where urlopen = net_headless and url = "''u''", OF u b d c f w t]
  show ?thesis by simp
qed

subsection \<open>The merge of the versions\<close>

text \<open>
  Claim C1, as amended. For a non-empty version sequence whose merge completes, the final
  error registry has an entry for class \<^verbatim>\<open>22\<close> and code \<^verbatim>\<open>22020\<close>: the label the last
  version's document gives to that code under that class when it defines one, and the
  hardcoded \<^verbatim>\<open>INVALID_LIMIT_VALUE\<close> otherwise. The assignment is made in every version's
  step, before that version's errors are merged, so on conflict the last version's value is
  the final one.
\<close>

theorem legacy_injection:
  assumes "fetch_errors urlopen (vs @ [v]) = Inr (classes, errors)"
    and "parse_version urlopen v = Inr (c1, e1)"
  shows "lookup2 errors ''22'' ''22020'' =
     (case lookup2 e1 ''22'' ''22020'' of
        Some l \<Rightarrow> Some l
      | None \<Rightarrow> Some ''INVALID_LIMIT_VALUE'')"
proof -
  from assms obtain classes0 errors0
    where m: "(classes, errors) = merge_version (classes0, errors0) (c1, e1)"
    unfolding fetch_errors_def by (rule fetch_loop_last)
  have "wf_dd e1" using parse_version_wf [OF assms(2)] by simp
  from merge_version_errors [OF this, of classes0 errors0 c1 "''22''" "''22020''"] m [symmetric]
  show ?thesis by simp
qed

theorem legacy_injection_witness:
  "final_label (fetch_errors net_ab ([''9.1''] @ [''9.2''])) ''22'' ''22020'' =
     Inr (Some ''INVALID_LIMIT_VALUE'') \<and>
   final_label (parse_version net_ab ''9.1'') ''22'' ''22020'' = Inr (Some ''LIMIT_VALUE'') \<and>
   final_label (parse_version net_ab ''9.2'') ''22'' ''22020'' = Inr None"
proof -
  let ?c = "[(''22'', ''Class 22 - Data Exception (revised)''), (''23'', ''Class 23 - Integrity'')]"
  let ?e2 = "[(''22'', [(''22001'', ''STRING_DATA_RIGHT_TRUNCATION'')]),
              (''23'', [(''22000'', ''MOVED_EXCEPTION''), (''22020'', ''MOVED_LIMIT'')])]"
  let ?e = "[(''22'', [(''22020'', ''INVALID_LIMIT_VALUE''), (''22000'', ''DATA_EXCEPTION''),
                       (''22001'', ''STRING_DATA_RIGHT_TRUNCATION'')]),
             (''23'', [(''22000'', ''MOVED_EXCEPTION''), (''22020'', ''MOVED_LIMIT'')])]"
  have f0: "fetch_errors net_ab [''9.1'', ''9.2''] = Inr (?c, ?e)" by code_simp
  then have f: "fetch_errors net_ab ([''9.1''] @ [''9.2'']) = Inr (?c, ?e)" by simp
  have p: "parse_version net_ab ''9.2'' = Inr (?c, ?e2)" by code_simp
  have n: "lookup2 ?e2 ''22'' ''22020'' = None" by code_simp
  from legacy_injection [OF f p] n
  have "lookup2 ?e ''22'' ''22020'' = Some ''INVALID_LIMIT_VALUE''" by simp
  then have "final_label (fetch_errors net_ab ([''9.1''] @ [''9.2''])) ''22'' ''22020'' =
     Inr (Some ''INVALID_LIMIT_VALUE'')"
    by (simp add: f0 final_label_def)
  moreover have "final_label (parse_version net_ab ''9.1'') ''22'' ''22020'' = Inr (Some ''LIMIT_VALUE'')"
    by code_simp
  moreover have "final_label (parse_version net_ab ''9.2'') ''22'' ''22020'' = Inr None"
    using n by (simp add: p final_label_def)
  ultimately show ?thesis by simp
qed

theorem legacy_injection_counterexample:
  "final_label (fetch_errors net_ab [''9.1'']) ''22'' ''22020'' = Inr (Some ''LIMIT_VALUE'') \<and>
   final_label (fetch_errors net_ab []) ''22'' ''22020'' = Inr None"
  by code_simp

text \<open>
  Claim C2, as amended. When a version processed earlier and a later version both define an
  error code under the same class with different labels, and no version processed after
  the later one defines that code under that class, the final error registry holds the
  later version's label; except that for code \<^verbatim>\<open>22020\<close> of class \<^verbatim>\<open>22\<close> it holds
  \<^verbatim>\<open>INVALID_LIMIT_VALUE\<close> as soon as some version is processed after the later one, since
  every step assigns that label before it merges its own errors. Likewise, when both give
  a label to the same class code and no version processed after the later one has a
  header for it, the final class registry holds the later version's label.
\<close>

theorem merge_override:
  assumes "fetch_errors urlopen (pre @ [v2] @ post) = Inr (classes, errors)"
    and "v1 \<in> set pre"
  shows "(final_label (parse_version urlopen v1) c k = Inr (Some l1) \<and>
          final_label (parse_version urlopen v2) c k = Inr (Some l2) \<and> l1 \<noteq> l2 \<and>
          (\<forall>v \<in> set post. final_label (parse_version urlopen v) c k = Inr None) \<longrightarrow>
            lookup2 errors c k =
              Some (if c = ''22'' \<and> k = ''22020'' \<and> post \<noteq> [] then ''INVALID_LIMIT_VALUE''
                    else l2)) \<and>
         (final_class (parse_version urlopen v1) c' = Inr (Some lab1) \<and>
          final_class (parse_version urlopen v2) c' = Inr (Some lab2) \<and> lab1 \<noteq> lab2 \<and>
          (\<forall>v \<in> set post. final_class (parse_version urlopen v) c' = Inr None) \<longrightarrow>
            map_of classes c' = Some lab2)"
proof -
  have "fetch_loop urlopen ((pre @ [v2]) @ post) ([], []) = Inr (classes, errors)"
    using assms(1) by (simp add: fetch_errors_def)
  then obtain classes2 errors2
    where f2: "fetch_loop urlopen (pre @ [v2]) ([], []) = Inr (classes2, errors2)"
      and fp: "fetch_loop urlopen post (classes2, errors2) = Inr (classes, errors)"
    by (rule fetch_loop_split)
  show ?thesis
  proof (intro conjI impI)
    assume h: "final_label (parse_version urlopen v1) c k = Inr (Some l1) \<and>
          final_label (parse_version urlopen v2) c k = Inr (Some l2) \<and> l1 \<noteq> l2 \<and>
          (\<forall>v \<in> set post. final_label (parse_version urlopen v) c k = Inr None)"
    then have "lookup2 errors2 c k = Some l2"
      using fetch_loop_sets_label [OF f2] by blast
    moreover from h have "\<forall>v \<in> set post. final_label (parse_version urlopen v) c k = Inr None"
      by blast
    note fetch_loop_keeps_label [OF fp this]
    ultimately show "lookup2 errors c k =
        Some (if c = ''22'' \<and> k = ''22020'' \<and> post \<noteq> [] then ''INVALID_LIMIT_VALUE'' else l2)"
      by simp
  next
    assume h: "final_class (parse_version urlopen v1) c' = Inr (Some lab1) \<and>
          final_class (parse_version urlopen v2) c' = Inr (Some lab2) \<and> lab1 \<noteq> lab2 \<and>
          (\<forall>v \<in> set post. final_class (parse_version urlopen v) c' = Inr None)"
    then have "map_of classes2 c' = Some lab2"
      using fetch_loop_sets_class [OF f2] by blast
    moreover from h have "\<forall>v \<in> set post. final_class (parse_version urlopen v) c' = Inr None"
      by blast
    note fetch_loop_keeps_class [OF fp this]
    ultimately show "map_of classes c' = Some lab2" by simp
  qed
qed

theorem merge_override_witness:
  "final_label (parse_version net_123 ''9.1'') ''22'' ''22003'' = Inr (Some ''KEPT_A'') \<and>
   final_label (parse_version net_123 ''9.2'') ''22'' ''22003'' = Inr (Some ''KEPT_B'') \<and>
   final_label (parse_version net_123 ''9.3'') ''22'' ''22003'' = Inr None \<and>
   final_label (fetch_errors net_123 [''9.1'', ''9.2'', ''9.3'']) ''22'' ''22003'' =
     Inr (Some ''KEPT_B'') \<and>
   final_class (parse_version net_123 ''9.1'') ''08'' = Inr (Some ''Class 08 - Connection'') \<and>
   final_class (parse_version net_123 ''9.2'') ''08'' =
     Inr (Some ''Class 08 - Connection Exception'') \<and>
   final_class (parse_version net_123 ''9.3'') ''08'' = Inr None \<and>
   final_class (fetch_errors net_123 [''9.1'', ''9.2'', ''9.3'']) ''08'' =
     Inr (Some ''Class 08 - Connection Exception'')"
proof -
  have f0: "fetch_errors net_123 [''9.1'', ''9.2'', ''9.3''] = Inr (classes_123, errors_123)"
    by code_simp
  then have f: "fetch_errors net_123 ([''9.1''] @ [''9.2''] @ [''9.3'']) =
      Inr (classes_123, errors_123)" by simp
  have i: "''9.1'' \<in> set [''9.1'']" by simp
  have a1: "final_label (parse_version net_123 ''9.1'') ''22'' ''22003'' = Inr (Some ''KEPT_A'')"
    by code_simp
  have a2: "final_label (parse_version net_123 ''9.2'') ''22'' ''22003'' = Inr (Some ''KEPT_B'')"
    by code_simp
  have a3: "final_label (parse_version net_123 ''9.3'') ''22'' ''22003'' = Inr None"
    by code_simp
  have b1: "final_class (parse_version net_123 ''9.1'') ''08'' = Inr (Some ''Class 08 - Connection'')"
    by code_simp
  have b2: "final_class (parse_version net_123 ''9.2'') ''08'' =
      Inr (Some ''Class 08 - Connection Exception'')" by code_simp
  have b3: "final_class (parse_version net_123 ''9.3'') ''08'' = Inr None" by code_simp
  have ha: "final_label (parse_version net_123 ''9.1'') ''22'' ''22003'' = Inr (Some ''KEPT_A'') \<and>
      final_label (parse_version net_123 ''9.2'') ''22'' ''22003'' = Inr (Some ''KEPT_B'') \<and>
      ''KEPT_A'' \<noteq> ''KEPT_B'' \<and>
      (\<forall>v \<in> set [''9.3'']. final_label (parse_version net_123 v) ''22'' ''22003'' = Inr None)"
    using a1 a2 a3 by simp
  have hb: "final_class (parse_version net_123 ''9.1'') ''08'' = Inr (Some ''Class 08 - Connection'') \<and>
      final_class (parse_version net_123 ''9.2'') ''08'' =
        Inr (Some ''Class 08 - Connection Exception'') \<and>
      ''Class 08 - Connection'' \<noteq> ''Class 08 - Connection Exception'' \<and>
      (\<forall>v \<in> set [''9.3'']. final_class (parse_version net_123 v) ''08'' = Inr None)"
    using b1 b2 b3 by simp
  from merge_override [OF f i, where c = "''22''" and k = "''22003''" and ?l1.0 = "''KEPT_A''"
      and ?l2.0 = "''KEPT_B''" and c' = "''08''" and ?lab1.0 = "''Class 08 - Connection''"
      and ?lab2.0 = "''Class 08 - Connection Exception''"] ha hb
  have r: "lookup2 errors_123 ''22'' ''22003'' = Some ''KEPT_B''"
    "map_of classes_123 ''08'' = Some ''Class 08 - Connection Exception''"
    by simp_all
  show ?thesis
    using r a1 a2 a3 b1 b2 b3 by (simp add: f0 final_label_def final_class_def)
qed

theorem merge_override_counterexample:
  "final_label (parse_version net_123 ''9.1'') ''22'' ''22020'' = Inr (Some ''ONE'') \<and>
   final_label (parse_version net_123 ''9.2'') ''22'' ''22020'' = Inr (Some ''TWO'') \<and>
   final_label (fetch_errors net_123 [''9.1'', ''9.2'', ''9.3'']) ''22'' ''22020'' =
     Inr (Some ''INVALID_LIMIT_VALUE'') \<and>
   final_label (parse_version net_123 ''9.1'') ''22'' ''22001'' = Inr (Some ''FIRST'') \<and>
   final_label (parse_version net_123 ''9.2'') ''22'' ''22001'' = Inr (Some ''SECOND'') \<and>
   final_label (fetch_errors net_123 [''9.1'', ''9.2'', ''9.3'']) ''22'' ''22001'' =
     Inr (Some ''THIRD'') \<and>
   final_class (parse_version net_123 ''9.1'') ''22'' = Inr (Some ''Class 22 - Data Exception'') \<and>
   final_class (parse_version net_123 ''9.2'') ''22'' =
     Inr (Some ''Class 22 - Data Exception (revised)'') \<and>
   final_class (fetch_errors net_123 [''9.1'', ''9.2'', ''9.3'']) ''22'' =
     Inr (Some ''Class 22 - Data'')"
  by code_simp




subsection \<open>The generator\<close>

text \<open>
  Claim C8, as amended. The identifier of a class constant is made from the text between
  the first separator \<^verbatim>\<open>" - "\<close> of the label and the next one (the end of the label when
  there is no second separator): truncated at the first parenthesis, trimmed, with spaces
  and slashes replaced by underscores, in upper case, after the prefix \<^verbatim>\<open>CLASS_\<close>. A label
  without a separator raises \<^verbatim>\<open>IndexError\<close>.
\<close>

theorem class_constant_identifier:
  "class_line clscode clslabel =
     (case class_ident clslabel of
        None \<Rightarrow> Inl IndexError
      | Some ident \<Rightarrow> Inr (ident @ '' = '' @ py_repr clscode))"
proof (cases "after_sep '' - '' clslabel")
  case None
  then have "class_err clslabel = Inl IndexError"
    by (simp add: class_err_ident)
  with None show ?thesis
    by (simp add: class_line_def class_ident_def)
next
  case (Some t)
  then have "class_err clslabel =
      Inr (upper (replace_char (CHR ''/'') (CHR ''_'')
             (replace_char (CHR '' '') (CHR ''_'')
                (strip (takeWhile (\<lambda>c. c \<noteq> CHR ''('') (before_sep '' - '' t))))))"
    by (simp add: class_err_ident)
  with Some show ?thesis
    by (simp add: class_line_def class_ident_def ident_of_text_def)
qed

theorem class_constant_identifier_counterexample:
  "final_class (parse_errors_txt net_two_separators ''u'') ''22'' =
     Inr (Some ''Class 22 - Syntax - Extra'') \<and>
   class_line ''22'' ''Class 22 - Syntax - Extra'' = Inr (''CLASS_SYNTAX = '' @ quoted ''22'') \<and>
   spec_class_ident ''Class 22 - Syntax - Extra'' = Some ''CLASS_SYNTAX_-_EXTRA''"
  by code_simp

text \<open>
  Claim C7. For the registries a merge ends with, the generator yields, without raising:
  a blank line, the header \<^verbatim>\<open># Error classes\<close>, one class-constant declaration per class
  code in ascending order, then for each class code in ascending order a blank line, a
  comment with the class label and one declaration per error code of the class in
  ascending order, binding the symbolic label to the error code.
\<close>

theorem generated_block:
  assumes "fetch_errors urlopen versions = Inr (classes, errors)"
  shows "generate_module_data classes errors = (spec_block classes errors, None)"
proof -
  from fetch_errors_good [OF assms]
  have g: "wf_dict classes" "wf_dd errors" "labelled classes" by simp_all
  have l: "labelled (sort classes)" using g(3) by (simp add: labelled_sort)
  have s: "sort classes = map (\<lambda>k. (k, value_of classes k)) (sorted_keys classes)"
    using g(1) by (rule sort_items)
  have c: "fst (class_lines (sort classes)) = map (spec_class_decl classes) (sorted_keys classes)"
    unfolding class_lines_labelled [OF l] by (simp add: s spec_class_decl_def o_def)
  have n: "snd (class_lines (sort classes)) = None"
    unfolding class_lines_labelled [OF l] by simp
  have t: "map (section_lines errors) (sort classes) =
      map (spec_section classes errors) (sorted_keys classes)"
    by (simp add: s o_def section_lines_spec [OF g(2)])
  obtain ls r where lr: "class_lines (sort classes) = (ls, r)" by (cases "class_lines (sort classes)")
  from c n lr have "ls = map (spec_class_decl classes) (sorted_keys classes)" "r = None" by simp_all
  then show ?thesis
    using lr t by (simp add: generate_module_data_def spec_block_def)
qed

theorem generated_block_witness:
  "fetch_errors net_ab [''9.1'', ''9.2''] = Inr (classes_ab, errors_ab) \<and>
   generate_module_data classes_ab errors_ab = (block_ab, None)"
proof -
  have f: "fetch_errors net_ab [''9.1'', ''9.2''] = Inr (classes_ab, errors_ab)" by code_simp
  have b: "spec_block classes_ab errors_ab = block_ab" by code_simp
  from generated_block [OF f] b show ?thesis using f by simp
qed

text \<open>
  Claim C9. The generated lines depend on the contents of the registries only: two pairs
  of registries with the same items, inserted in whatever order, give the same lines.
\<close>

theorem generation_deterministic:
  assumes "wf_dict classes" "wf_dict classes'" "wf_dd errors" "wf_dd errors'"
    and "same_dict classes classes'"
    and "same_dd errors errors' (map fst classes)"
  shows "generate_module_data classes errors = generate_module_data classes' errors'"
proof -
  have s: "sort classes' = sort classes"
    using sort_same_dict [OF assms(1,2,5)] by simp
  have m: "map (section_lines errors) (sort classes) = map (section_lines errors') (sort classes)"
  proof (rule map_cong [OF refl])
    fix item assume i: "item \<in> set (sort classes)"
    obtain c l where item: "item = (c, l)" by (cases item)
    from i item have "c \<in> set (map fst classes)" by force
    then have "same_dict (dd_get errors c) (dd_get errors' c)"
      using assms(6) by (auto simp: same_dd_def list_all_iff)
    then have "sort (dd_get errors c) = sort (dd_get errors' c)"
      using wf_dict_dd_get [OF assms(3)] wf_dict_dd_get [OF assms(4)]
      by (intro sort_same_dict)
    then show "section_lines errors item = section_lines errors' item"
      by (simp add: section_lines_def item)
  qed
  show ?thesis
    unfolding generate_module_data_def s m by (rule refl)
qed

theorem generation_deterministic_witness:
  "generate_module_data classes_ab errors_ab = generate_module_data classes_ba errors_ba \<and>
   classes_ab \<noteq> classes_ba \<and> errors_ab \<noteq> errors_ba"
proof -
  have w: "wf_dict classes_ab" "wf_dict classes_ba" "wf_dd errors_ab" "wf_dd errors_ba"
    by code_simp+
  have c: "same_dict classes_ab classes_ba" by code_simp
  have e: "same_dd errors_ab errors_ba (map fst classes_ab)" by code_simp
  have n: "classes_ab \<noteq> classes_ba \<and> errors_ab \<noteq> errors_ba" by code_simp
  from generation_deterministic [OF w c e] n show ?thesis by simp
qed

subsection \<open>The run\<close>



text \<open>
  Claim C6, as amended. When the target file decodes and none of its lines starts with
  the sentinel, \<^verbatim>\<open>main\<close> ends with the sentinel-missing \<^verbatim>\<open>ValueError\<close> whatever the network
  would answer, failures included, so nothing has been fetched or parsed, and the file
  system is as it was. When the decoding of the file fails before a line starting with the
  sentinel has been read, \<^verbatim>\<open>main\<close> ends with \<^verbatim>\<open>UnicodeDecodeError\<close> instead, the file
  system again as it was. When a line starts with the sentinel, \<^verbatim>\<open>read_base_file\<close> returns
  the lines up to and including the first such line, without their line ends.
\<close>

theorem sentinel_missing:
  "(length argv = 2 \<and> fs (argv ! 1) = Some (Decodes content) \<and>
    no_sentinel (readlines content) \<longrightarrow>
      main argv fs urlopen = (Inl separator_missing, fs)) \<and>
   (length argv = 2 \<and> fs (argv ! 1) = Some (Undecodable ls) \<and> no_sentinel ls \<longrightarrow>
      main argv fs urlopen = (Inl UnicodeDecodeError, fs)) \<and>
   (fs filename = Some f \<and> file_lines f = pre @ line # post \<and>
    no_sentinel pre \<and> startswith sentinel line \<longrightarrow>
      read_base_file fs filename = Inr (map rstrip_newline (pre @ [line])))"
proof (intro conjI impI)
  assume "length argv = 2 \<and> fs (argv ! 1) = Some (Decodes content) \<and>
    no_sentinel (readlines content)"
  then show "main argv fs urlopen = (Inl separator_missing, fs)"
    by (simp add: main_def read_base_file_def file_lines_def file_end_def read_loop_missing)
next
  assume "length argv = 2 \<and> fs (argv ! 1) = Some (Undecodable ls) \<and> no_sentinel ls"
  then show "main argv fs urlopen = (Inl UnicodeDecodeError, fs)"
    by (simp add: main_def read_base_file_def file_lines_def file_end_def read_loop_missing)
next
  assume "fs filename = Some f \<and> file_lines f = pre @ line # post \<and>
    no_sentinel pre \<and> startswith sentinel line"
  then show "read_base_file fs filename = Inr (map rstrip_newline (pre @ [line]))"
    using read_loop_found [of pre line post "file_end f" "[]"] by (simp add: read_base_file_def)
qed

theorem sentinel_missing_witness:
  "main argv_ex fs_plain net_down = (Inl separator_missing, fs_plain) \<and>
   main argv_ex fs_plain net_ab = (Inl separator_missing, fs_plain) \<and>
   main argv_ex fs_broken net_ab = (Inl UnicodeDecodeError, fs_broken) \<and>
   read_base_file fs_cr ''errorcodes.py'' = Inr [''x'', ''# autogenerated'']"
proof -
  let ?c = "''import x\<newline>old = 1\<newline>''"
  let ?f = "Decodes (''x'' @ [carriage_return] @ ''# autogenerated'' @
     [carriage_return, newline] @ ''old'')"
  have h1: "length argv_ex = 2 \<and> fs_plain (argv_ex ! 1) = Some (Decodes ?c) \<and>
      no_sentinel (readlines ?c)" by code_simp
  have h2: "length argv_ex = 2 \<and> fs_broken (argv_ex ! 1) = Some (Undecodable [''import x\<newline>'']) \<and>
      no_sentinel [''import x\<newline>'']" by code_simp
  have h3: "fs_cr ''errorcodes.py'' = Some ?f \<and>
      file_lines ?f = [''x\<newline>''] @ ''# autogenerated\<newline>'' # [''old''] \<and>
      no_sentinel [''x\<newline>''] \<and> startswith sentinel ''# autogenerated\<newline>''" by code_simp
  have s: "map rstrip_newline ([''x\<newline>''] @ [''# autogenerated\<newline>'']) = [''x'', ''# autogenerated'']"
    by code_simp
  from sentinel_missing [where argv = argv_ex and fs = fs_plain and content = ?c
      and urlopen = net_down] h1
  have "main argv_ex fs_plain net_down = (Inl separator_missing, fs_plain)" by blast
  moreover from sentinel_missing [where argv = argv_ex and fs = fs_plain and content = ?c
      and urlopen = net_ab] h1
  have "main argv_ex fs_plain net_ab = (Inl separator_missing, fs_plain)" by blast
  moreover from sentinel_missing [where argv = argv_ex and fs = fs_broken
      and ls = "[''import x\<newline>'']" and urlopen = net_ab] h2
  have "main argv_ex fs_broken net_ab = (Inl UnicodeDecodeError, fs_broken)" by blast
  moreover from sentinel_missing [where fs = fs_cr and filename = "''errorcodes.py''" and f = ?f
      and pre = "[''x\<newline>'']" and line = "''# autogenerated\<newline>''" and post = "[''old'']"] h3
  have "read_base_file fs_cr ''errorcodes.py'' =
      Inr (map rstrip_newline ([''x\<newline>''] @ [''# autogenerated\<newline>'']))" by blast
  ultimately show ?thesis using s by simp
qed

theorem sentinel_missing_counterexample:
  "fs_broken ''errorcodes.py'' = Some (Undecodable [''import x\<newline>'']) \<and>
   no_sentinel (file_lines (Undecodable [''import x\<newline>''])) \<and>
   fst (main argv_ex fs_broken net_down) = Inl UnicodeDecodeError \<and>
   UnicodeDecodeError \<noteq> separator_missing"
  by code_simp

end
